theory Spec2Isabelle
  imports Complex_Main
begin

section \<open>SmartOS: intent classification, dispatch and metrics\<close>

text \<open>
  A shallow embedding of \<^verbatim>\<open>smartos_main.py\<close> (classes \<^verbatim>\<open>NLUProcessor\<close>,
  \<^verbatim>\<open>TaskExecutor\<close>, \<^verbatim>\<open>SmartOSInterface\<close>) and of
  \<^verbatim>\<open>MetricsCollector.calculate_performance_metrics\<close> of
  \<^verbatim>\<open>smartos_metrics_dashboard.py\<close>.

  Conventions of the model:
  \<^item> a Python \<^verbatim>\<open>str\<close> is a \<open>string\<close> whose characters are the code points
    below 256 (ASCII and Latin-1), which is what a \<open>char\<close> holds: \<^verbatim>\<open>lower()\<close> and
    the white space of \<^verbatim>\<open>strip()\<close> and \<^verbatim>\<open>split()\<close> are Python's on these code
    points, and \<^verbatim>\<open>lower()\<close> keeps the length of such a text; a text with a code
    point from 256 on is outside the model;
  \<^item> a Python \<^verbatim>\<open>float\<close> is a \<open>real\<close>: rounding is not modelled;
  \<^item> a Python \<^verbatim>\<open>int\<close> is an \<open>int\<close>;
  \<^item> a dictionary whose keys may be missing is a record of \<open>option\<close> fields, a
    dictionary that is iterated is an association list in its insertion order;
  \<^item> an exception is a value of \<open>py_error\<close>, and a function that may raise returns
    \<open>py_error + 'a\<close>;
  \<^item> the operating system (files, launched processes, the clock, the screen capture) is
    an explicit \<open>world\<close> and an \<open>env\<close> of readings and refusals.
\<close>

subsection \<open>Python strings\<close>

text \<open>
  \<^verbatim>\<open>s.lower()\<close>: the letters A to Z become a to z and the Latin-1 capital letters
  0xC0 to 0xDE, without the multiplication sign 0xD7, become 0xE0 to 0xFE; every other
  code point below 256 stays.
\<close>

definition latin1_upper :: "char list" where
  "latin1_upper =
     [CHR 0xC0, CHR 0xC1, CHR 0xC2, CHR 0xC3, CHR 0xC4, CHR 0xC5, CHR 0xC6, CHR 0xC7,
      CHR 0xC8, CHR 0xC9, CHR 0xCA, CHR 0xCB, CHR 0xCC, CHR 0xCD, CHR 0xCE, CHR 0xCF,
      CHR 0xD0, CHR 0xD1, CHR 0xD2, CHR 0xD3, CHR 0xD4, CHR 0xD5, CHR 0xD6,
      CHR 0xD8, CHR 0xD9, CHR 0xDA, CHR 0xDB, CHR 0xDC, CHR 0xDD, CHR 0xDE]"

definition latin1_lower :: "char list" where
  "latin1_lower =
     [CHR 0xE0, CHR 0xE1, CHR 0xE2, CHR 0xE3, CHR 0xE4, CHR 0xE5, CHR 0xE6, CHR 0xE7,
      CHR 0xE8, CHR 0xE9, CHR 0xEA, CHR 0xEB, CHR 0xEC, CHR 0xED, CHR 0xEE, CHR 0xEF,
      CHR 0xF0, CHR 0xF1, CHR 0xF2, CHR 0xF3, CHR 0xF4, CHR 0xF5, CHR 0xF6,
      CHR 0xF8, CHR 0xF9, CHR 0xFA, CHR 0xFB, CHR 0xFC, CHR 0xFD, CHR 0xFE]"

definition lower_table :: "(char \<times> char) list" where
  "lower_table =
     zip (''ABCDEFGHIJKLMNOPQRSTUVWXYZ'' @ latin1_upper)
         (''abcdefghijklmnopqrstuvwxyz'' @ latin1_lower)"

definition to_lower :: "char \<Rightarrow> char" where
  "to_lower c = (case map_of lower_table c of Some l \<Rightarrow> l | None \<Rightarrow> c)"

definition lower :: "string \<Rightarrow> string" where
  "lower s = map to_lower s"

text \<open>
  \<^verbatim>\<open>c.isspace()\<close> on the code points below 256: tab, line feed, vertical tab, form
  feed, carriage return, the four separators 0x1C to 0x1F, the space, the next line
  control 0x85 and the no-break space 0xA0.
\<close>

definition whitespace :: "char list" where
  "whitespace = [CHR 0x09, CHR 0x0A, CHR 0x0B, CHR 0x0C, CHR 0x0D,
                 CHR 0x1C, CHR 0x1D, CHR 0x1E, CHR 0x1F, CHR 0x20,
                 CHR 0x85, CHR 0xA0]"

definition is_space :: "char \<Rightarrow> bool" where
  "is_space c = (c \<in> set whitespace)"

text \<open>\<^verbatim>\<open>s.strip()\<close>\<close>

definition lstrip :: "string \<Rightarrow> string" where
  "lstrip s = dropWhile is_space s"

definition rstrip :: "string \<Rightarrow> string" where
  "rstrip s = rev (dropWhile is_space (rev s))"

definition strip :: "string \<Rightarrow> string" where
  "strip s = rstrip (lstrip s)"

text \<open>\<^verbatim>\<open>s.startswith(k)\<close>\<close>

definition startswith :: "string \<Rightarrow> string \<Rightarrow> bool" where
  "startswith s k = (take (length k) s = k)"

text \<open>\<^verbatim>\<open>k in s\<close>: \<open>k\<close> occurs in \<open>s\<close> as a contiguous substring.\<close>

fun str_contains :: "string \<Rightarrow> string \<Rightarrow> bool" where
  "str_contains [] k = (k = [])"
| "str_contains (c # cs) k = (startswith (c # cs) k \<or> str_contains cs k)"

text \<open>\<^verbatim>\<open>s.find(k)\<close>: the index of the first occurrence of \<open>k\<close> in \<open>s\<close>, or \<open>-1\<close>.\<close>

fun str_find :: "string \<Rightarrow> string \<Rightarrow> int" where
  "str_find [] k = (if k = [] then 0 else -1)"
| "str_find (c # cs) k =
     (if startswith (c # cs) k then 0
      else (let i = str_find cs k in if i < 0 then -1 else i + 1))"

text \<open>\<^verbatim>\<open>s[i:]\<close> for an index \<open>i\<close>; a negative index counts from the end.\<close>

definition slice_from :: "string \<Rightarrow> int \<Rightarrow> string" where
  "slice_from s i =
     (if i < 0 then drop (nat (int (length s) + i)) s else drop (nat i) s)"

text \<open>
  \<^verbatim>\<open>s.split()\<close>: the maximal runs of characters that are not white space.
  \<open>split_acc\<close> carries the current run, reversed.
\<close>

fun split_acc :: "string \<Rightarrow> string \<Rightarrow> string list" where
  "split_acc acc [] = (if acc = [] then [] else [rev acc])"
| "split_acc acc (c # cs) =
     (if is_space c then (if acc = [] then split_acc [] cs else rev acc # split_acc [] cs)
      else split_acc (c # acc) cs)"

definition split :: "string \<Rightarrow> string list" where
  "split s = split_acc [] s"

text \<open>\<^verbatim>\<open>s.replace(a, b)\<close> for single characters \<open>a\<close> and \<open>b\<close>.\<close>

definition replace_char :: "char \<Rightarrow> char \<Rightarrow> string \<Rightarrow> string" where
  "replace_char a b s = map (\<lambda>c. if c = a then b else c) s"

text \<open>\<^verbatim>\<open>any(p(x) for x in xs)\<close>\<close>

definition any :: "('a \<Rightarrow> bool) \<Rightarrow> 'a list \<Rightarrow> bool" where
  "any p xs = list_ex p xs"

subsection \<open>Intents\<close>

text \<open>
  The intent dictionary of \<^verbatim>\<open>parse_command\<close>, with the keys \<^verbatim>\<open>action\<close>,
  \<^verbatim>\<open>target\<close>, \<^verbatim>\<open>parameters\<close>, \<^verbatim>\<open>confidence\<close> and
  \<^verbatim>\<open>original_command\<close>. \<^verbatim>\<open>execute_intent\<close> takes any dictionary, so a key may be
  missing: a missing key is \<open>None\<close>.
\<close>

record intent =
  action :: "string option"
  target :: "string option"
  parameters :: "(string \<rightharpoonup> string) option"
  confidence :: "real option"
  original_command :: "string option"

text \<open>\<^verbatim>\<open>_load_intent_patterns\<close>, one constant for each entry of the nested dictionary.\<close>

definition open_application_keywords :: "string list" where
  "open_application_keywords = [''open'', ''launch'', ''start'', ''run'']"

definition open_application_apps :: "(string \<times> string list) list" where
  "open_application_apps =
     [(''notepad'', [''notepad'', ''text editor'', ''note'']),
      (''calculator'', [''calculator'', ''calc'']),
      (''browser'', [''browser'', ''chrome'', ''firefox'', ''edge'', ''internet'']),
      (''explorer'', [''explorer'', ''file manager'', ''files'', ''folder'']),
      (''cmd'', [''command prompt'', ''cmd'', ''terminal'', ''console'']),
      (''powershell'', [''powershell'', ''ps'']),
      (''code'', [''vscode'', ''visual studio code'', ''code editor'', ''vs code'']),
      (''word'', [''word'', ''microsoft word'', ''document'']),
      (''excel'', [''excel'', ''spreadsheet'', ''microsoft excel''])]"

definition file_operations_keywords :: "string list" where
  "file_operations_keywords = [''create'', ''write'', ''save'', ''delete'', ''copy'', ''move'']"

definition file_operations_actions :: "(string \<times> string list) list" where
  "file_operations_actions =
     [(''create'', [''create'', ''make'', ''new'']),
      (''write'', [''write'', ''type'', ''add content'', ''insert'']),
      (''save'', [''save'', ''store'']),
      (''delete'', [''delete'', ''remove'', ''erase'']),
      (''copy'', [''copy'', ''duplicate'']),
      (''move'', [''move'', ''transfer'', ''relocate''])]"

definition system_control_keywords :: "string list" where
  "system_control_keywords = [''shutdown'', ''restart'', ''sleep'', ''hibernate'', ''lock'']"

definition content_creation_keywords :: "string list" where
  "content_creation_keywords = [''write essay'', ''create document'', ''compose'', ''draft'']"

definition content_creation_types :: "string list" where
  "content_creation_types = [''essay'', ''document'', ''letter'', ''report'', ''email'']"

subsection \<open>\<^verbatim>\<open>NLUProcessor.parse_command\<close>\<close>

text \<open>The dictionary that \<^verbatim>\<open>parse_command\<close> starts from (lines 158 to 164).\<close>

definition initial_intent :: "string \<Rightarrow> intent" where
  "initial_intent command =
     \<lparr>action = Some ''unknown'', target = Some [], parameters = Some Map.empty,
      confidence = Some 0.0, original_command = Some command\<rparr>"

text \<open>\<^verbatim>\<open>intent["parameters"][k] = v\<close>\<close>

definition set_parameter :: "string \<Rightarrow> string \<Rightarrow> intent \<Rightarrow> intent" where
  "set_parameter k v i = i\<lparr>parameters := map_option (\<lambda>ps. ps(k \<mapsto> v)) (parameters i)\<rparr>"

text \<open>\<^verbatim>\<open>intent["parameters"].get(k)\<close> on an intent that has its parameters.\<close>

definition get_parameter :: "intent \<Rightarrow> string \<Rightarrow> string option" where
  "get_parameter i k = (case parameters i of None \<Rightarrow> None | Some ps \<Rightarrow> ps k)"

text \<open>
  A loop \<^verbatim>\<open>for x in xs: if p(x): body; break\<close> runs its body once, for the first \<open>x\<close>
  that satisfies \<open>p\<close>, or not at all: it is \<open>find p xs\<close>.

  \<^verbatim>\<open>for keyword in keywords: if keyword in command_lower: ...; break\<close>
\<close>

definition first_keyword :: "string \<Rightarrow> string list \<Rightarrow> string option" where
  "first_keyword command_lower keywords =
     find (\<lambda>keyword. str_contains command_lower keyword) keywords"

text \<open>
  \<^verbatim>\<open>for label, aliases in d.items(): if any(alias in command_lower for alias in aliases): ...; break\<close>
\<close>

definition first_target :: "string \<Rightarrow> (string \<times> string list) list \<Rightarrow> (string \<times> string list) option" where
  "first_target command_lower d =
     find (\<lambda>(label, aliases). any (\<lambda>alias. str_contains command_lower alias) aliases) d"

text \<open>
  Application opening detection (lines 167 to 175). The confidence is assigned in the
  branch of the matching alias, next to the target.
\<close>

definition detect_open_application :: "string \<Rightarrow> intent \<Rightarrow> intent" where
  "detect_open_application command_lower i =
     (case first_keyword command_lower open_application_keywords of
        None \<Rightarrow> i
      | Some keyword \<Rightarrow>
          (let i1 = i\<lparr>action := Some ''open_application''\<rparr> in
           case first_target command_lower open_application_apps of
             None \<Rightarrow> i1
           | Some (app, aliases) \<Rightarrow> i1\<lparr>target := Some app, confidence := Some 0.9\<rparr>))"

text \<open>
  The inner loop of the file name extraction (lines 189 to 192): the first word that is
  \<^verbatim>\<open>file\<close> or \<^verbatim>\<open>document\<close> and has a word after it gives that next word.
\<close>

fun extract_filename :: "string list \<Rightarrow> string option" where
  "extract_filename (word # next_word # ws) =
     (if lower word \<in> set [''file'', ''document''] then Some next_word
      else extract_filename (next_word # ws))"
| "extract_filename ws = None"

text \<open>File operations detection (lines 178 to 194).\<close>

definition detect_file_operation :: "string \<Rightarrow> string \<Rightarrow> intent \<Rightarrow> intent" where
  "detect_file_operation command command_lower i =
     (case first_keyword command_lower file_operations_keywords of
        None \<Rightarrow> i
      | Some keyword \<Rightarrow>
          (let i1 = i\<lparr>action := Some ''file_operation''\<rparr> in
           case first_target command_lower file_operations_actions of
             None \<Rightarrow> i1
           | Some (act, aliases) \<Rightarrow>
               (let i2 = i1\<lparr>target := Some act, confidence := Some 0.8\<rparr> in
                if str_contains command_lower ''file'' \<or> str_contains command_lower ''document''
                then (case extract_filename (split command) of
                        None \<Rightarrow> i2
                      | Some filename \<Rightarrow> set_parameter ''filename'' filename i2)
                else i2)))"

text \<open>System control detection (lines 197 to 203).\<close>

definition detect_system_control :: "string \<Rightarrow> intent \<Rightarrow> intent" where
  "detect_system_control command_lower i =
     (case first_keyword command_lower system_control_keywords of
        None \<Rightarrow> i
      | Some keyword \<Rightarrow>
          i\<lparr>action := Some ''system_control'', target := Some keyword, confidence := Some 0.85\<rparr>)"

text \<open>
  Content creation detection (lines 206 to 219). The topic is extracted in the branch of
  the matching content type; the index found in \<^verbatim>\<open>command_lower\<close> slices
  \<^verbatim>\<open>command\<close>.
\<close>

definition detect_content_creation :: "string \<Rightarrow> string \<Rightarrow> intent \<Rightarrow> intent" where
  "detect_content_creation command command_lower i =
     (case find (\<lambda>keyword. any (\<lambda>k. str_contains command_lower k) (split keyword))
                content_creation_keywords of
        None \<Rightarrow> i
      | Some keyword \<Rightarrow>
          (let i1 = i\<lparr>action := Some ''content_creation''\<rparr> in
           case first_keyword command_lower content_creation_types of
             None \<Rightarrow> i1
           | Some content_type \<Rightarrow>
               (let i2 = i1\<lparr>target := Some content_type, confidence := Some 0.75\<rparr> in
                if str_contains command_lower ''about''
                then (let topic_start = str_find command_lower ''about'' + 5 in
                      set_parameter ''topic'' (strip (slice_from command topic_start)) i2)
                else i2)))"

definition parse_command :: "string \<Rightarrow> intent" where
  "parse_command command =
     (let command_lower = strip (lower command);
          i0 = initial_intent command;
          i1 = detect_open_application command_lower i0;
          i2 = (if action i1 = Some ''unknown''
                then detect_file_operation command command_lower i1 else i1);
          i3 = (if action i2 = Some ''unknown''
                then detect_system_control command_lower i2 else i2);
          i4 = (if action i3 = Some ''unknown''
                then detect_content_creation command command_lower i3 else i3)
      in i4)"

subsection \<open>Exceptions, the operating system and the results of a dispatch\<close>

text \<open>
  The exceptions that the modelled code can meet: a missing dictionary key, a division by
  zero, and a call that the operating system refuses, with the text of its exception.
\<close>

datatype py_error = KeyError string | ZeroDivisionError | Fault string

definition apostrophe :: string where
  "apostrophe = [CHR 0x27]"

text \<open>\<^verbatim>\<open>str(e)\<close>; the text of a \<^verbatim>\<open>KeyError\<close> is the key in quotes.\<close>

fun str_error :: "py_error \<Rightarrow> string" where
  "str_error (KeyError k) = apostrophe @ k @ apostrophe"
| "str_error ZeroDivisionError = ''float division by zero''"
| "str_error (Fault text) = text"

text \<open>
  A launched process: \<^verbatim>\<open>subprocess.Popen(command, shell=True)\<close>, or
  \<^verbatim>\<open>subprocess.Popen(argv)\<close> and \<^verbatim>\<open>subprocess.run(argv)\<close>.
\<close>

datatype process = Shell string | Argv "string list"

text \<open>
  The part of the operating system that the handlers touch: the paths that exist, each
  with its content, and the processes launched so far.
\<close>

record world =
  files :: "string \<rightharpoonup> string"
  processes :: "process list"

datatype os_call =
    Touch string
  | Write string string
  | Remove string
  | Launch process

text \<open>
  What one call of the pipeline reads from outside: \<^verbatim>\<open>sys.platform\<close>, the
  configuration option \<^verbatim>\<open>screenshot_on_error\<close>, the two readings of
  \<^verbatim>\<open>time.time()\<close> around the dispatch, the calls that the operating system
  refuses (with the text of the exception; a refused call changes nothing), the screen
  grab of \<^verbatim>\<open>_capture_screenshot\<close> (the path of the saved image or the exception,
  and what it did to the system), the two readings of \<^verbatim>\<open>datetime.now()\<close> of
  \<^verbatim>\<open>log_execution_result\<close> (the time stamp and the day that names the log file),
  and whether reading or writing the log file is refused.
\<close>

record env =
  platform :: string
  screenshot_on_error :: bool
  clock_start :: real
  clock_end :: real
  refuses :: "os_call \<Rightarrow> string option"
  image_grab :: "world \<Rightarrow> (py_error + string) \<times> world"
  now_iso :: string
  today :: string
  log_refused :: "string option"

text \<open>
  The result dictionary. A handler returns the keys \<^verbatim>\<open>success\<close> and
  \<^verbatim>\<open>message\<close> only and \<^verbatim>\<open>execute_intent\<close> adds \<^verbatim>\<open>execution_time\<close>;
  the keys \<^verbatim>\<open>error\<close> and \<^verbatim>\<open>screenshot\<close> that such a dictionary lacks
  read \<open>None\<close> here.
\<close>

record execution_result =
  success :: bool
  message :: string
  execution_time :: real
  error :: "string option"
  screenshot :: "string option"

definition handler_result :: "bool \<Rightarrow> string \<Rightarrow> execution_result" where
  "handler_result ok text =
     \<lparr>success = ok, message = text, execution_time = 0.0, error = None, screenshot = None\<rparr>"

text \<open>\<^verbatim>\<open>sys.platform.startswith('win')\<close>\<close>

definition is_windows :: "env \<Rightarrow> bool" where
  "is_windows e = startswith (platform e) ''win''"

subsection \<open>\<^verbatim>\<open>TaskExecutor\<close>\<close>

text \<open>\<^verbatim>\<open>_get_app_commands\<close>\<close>

definition get_app_commands :: "env \<Rightarrow> (string \<times> string) list" where
  "get_app_commands e =
     (if is_windows e then
        [(''notepad'', ''notepad.exe''), (''calculator'', ''calc.exe''),
         (''browser'', ''start chrome''), (''explorer'', ''explorer.exe''),
         (''cmd'', ''cmd.exe''), (''powershell'', ''powershell.exe''),
         (''code'', ''code''), (''word'', ''winword.exe''), (''excel'', ''excel.exe'')]
      else if startswith (platform e) ''darwin'' then
        [(''notepad'', ''open -a TextEdit''), (''calculator'', ''open -a Calculator''),
         (''browser'', ''open -a Safari''), (''explorer'', ''open -a Finder''),
         (''cmd'', ''open -a Terminal''), (''code'', ''code'')]
      else
        [(''notepad'', ''gedit''), (''calculator'', ''gnome-calculator''),
         (''browser'', ''firefox''), (''explorer'', ''nautilus''),
         (''cmd'', ''gnome-terminal''), (''code'', ''code'')])"

text \<open>
  A call of the operating system inside a handler's own \<^verbatim>\<open>try\<close>: refused, it raises
  the exception that the handler's \<^verbatim>\<open>except\<close> turns into a failure message.
\<close>

definition launch :: "env \<Rightarrow> process \<Rightarrow> world \<Rightarrow> string + world" where
  "launch e p w =
     (case refuses e (Launch p) of
        Some text \<Rightarrow> Inl text
      | None \<Rightarrow> Inr (w\<lparr>processes := processes w @ [p]\<rparr>))"

text \<open>\<^verbatim>\<open>_execute_app_launch\<close> (lines 298 to 323)\<close>

definition execute_app_launch :: "env \<Rightarrow> intent \<Rightarrow> world \<Rightarrow> py_error + execution_result \<times> world" where
  "execute_app_launch e i w =
     (case target i of
        None \<Rightarrow> Inl (KeyError ''target'')
      | Some app_name \<Rightarrow>
          (let unsupported =
                 Inr (handler_result False
                        (''Application '' @ apostrophe @ app_name @ apostrophe
                           @ '' not supported or not found''), w) in
           case map_of (get_app_commands e) app_name of
             None \<Rightarrow> unsupported
           | Some command \<Rightarrow>
               if command = [] then unsupported
               else (case launch e (if is_windows e then Shell command
                                    else Argv (split command)) w of
                       Inr w' \<Rightarrow>
                         Inr (handler_result True (''Successfully launched '' @ app_name), w')
                     | Inl text \<Rightarrow>
                         Inr (handler_result False
                                (''Failed to launch '' @ app_name @ '': '' @ text), w))))"

text \<open>\<^verbatim>\<open>d.get(k, dflt)\<close>\<close>

definition get_default :: "(string \<rightharpoonup> string) \<Rightarrow> string \<Rightarrow> string \<Rightarrow> string" where
  "get_default d k dflt = (case d k of None \<Rightarrow> dflt | Some v \<Rightarrow> v)"

text \<open>\<^verbatim>\<open>_execute_file_operation\<close> (lines 325 to 349)\<close>

definition execute_file_operation :: "env \<Rightarrow> intent \<Rightarrow> world \<Rightarrow> py_error + execution_result \<times> world" where
  "execute_file_operation e i w =
     (case target i of
        None \<Rightarrow> Inl (KeyError ''target'')
      | Some operation \<Rightarrow>
     (case parameters i of
        None \<Rightarrow> Inl (KeyError ''parameters'')
      | Some ps \<Rightarrow>
          (let filename = get_default ps ''filename'' ''untitled.txt'';
               failed = (\<lambda>text. Inr (handler_result False (''File operation failed: '' @ text), w))
           in
           if operation = ''create'' then
             (case refuses e (Touch filename) of
                Some text \<Rightarrow> failed text
              | None \<Rightarrow>
                  Inr (handler_result True (''Created file: '' @ filename),
                       w\<lparr>files := (files w)(filename \<mapsto> get_default (files w) filename [])\<rparr>))
           else if operation = ''write'' then
             (let content = get_default ps ''content'' ''Sample content'' in
              case refuses e (Write filename content) of
                Some text \<Rightarrow> failed text
              | None \<Rightarrow>
                  Inr (handler_result True (''Written content to: '' @ filename),
                       w\<lparr>files := (files w)(filename \<mapsto> content)\<rparr>))
           else if operation = ''delete'' then
             (if filename \<in> dom (files w) then
                (case refuses e (Remove filename) of
                   Some text \<Rightarrow> failed text
                 | None \<Rightarrow>
                     Inr (handler_result True (''Deleted file: '' @ filename),
                          w\<lparr>files := (files w)(filename := None)\<rparr>))
              else Inr (handler_result False (''File not found: '' @ filename), w))
           else
             Inr (handler_result False
                    (''File operation '' @ apostrophe @ operation @ apostrophe
                       @ '' not implemented''), w))))"

text \<open>The command that \<^verbatim>\<open>_execute_system_control\<close> runs for an action, if any.\<close>

definition system_command :: "env \<Rightarrow> string \<Rightarrow> string list option" where
  "system_command e act =
     (if is_windows e then
        (if act = ''shutdown'' then Some [''shutdown'', ''/s'', ''/t'', ''60'']
         else if act = ''restart'' then Some [''shutdown'', ''/r'', ''/t'', ''60'']
         else if act = ''lock'' then Some [''rundll32.exe'', ''user32.dll,LockWorkStation'']
         else None)
      else
        (if act = ''shutdown'' then Some [''sudo'', ''shutdown'', ''-h'', ''+1'']
         else if act = ''restart'' then Some [''sudo'', ''shutdown'', ''-r'', ''+1'']
         else if act = ''lock'' then Some [''gnome-screensaver-command'', ''-l'']
         else None))"

text \<open>\<^verbatim>\<open>_execute_system_control\<close> (lines 351 to 374)\<close>

definition execute_system_control :: "env \<Rightarrow> intent \<Rightarrow> world \<Rightarrow> py_error + execution_result \<times> world" where
  "execute_system_control e i w =
     (case target i of
        None \<Rightarrow> Inl (KeyError ''target'')
      | Some act \<Rightarrow>
          (let initiated = (\<lambda>w'. Inr (handler_result True (''System '' @ act @ '' initiated''), w'))
           in
           case system_command e act of
             None \<Rightarrow> initiated w
           | Some argv \<Rightarrow>
               (case launch e (Argv argv) w of
                  Inr w' \<Rightarrow> initiated w'
                | Inl text \<Rightarrow>
                    Inr (handler_result False (''System control failed: '' @ text), w))))"

definition newline :: string where
  "newline = [CHR 0x0A]"

text \<open>The dictionary \<^verbatim>\<open>content_templates\<close> for a topic.\<close>

definition content_templates :: "string \<Rightarrow> (string \<times> string) list" where
  "content_templates topic =
     [(''essay'', ''# Essay on '' @ topic @ newline @ newline @ ''Introduction:'' @ newline
          @ newline @ ''Body:'' @ newline @ newline @ ''Conclusion:''),
      (''document'', ''Document: '' @ topic @ newline @ newline @ ''Content goes here...''),
      (''letter'', ''Dear [Recipient],'' @ newline @ newline @ ''Regarding: '' @ topic @ newline
          @ newline @ ''Sincerely,'' @ newline @ ''[Your Name]''),
      (''report'', ''# Report: '' @ topic @ newline @ newline @ ''## Executive Summary'' @ newline
          @ newline @ ''## Findings'' @ newline @ newline @ ''## Recommendations'')]"

text \<open>
  \<^verbatim>\<open>_execute_content_creation\<close> (lines 376 to 405). The file is written before the
  editor is launched: when the launch is refused the file stays.
\<close>

definition execute_content_creation :: "env \<Rightarrow> intent \<Rightarrow> world \<Rightarrow> py_error + execution_result \<times> world" where
  "execute_content_creation e i w =
     (case target i of
        None \<Rightarrow> Inl (KeyError ''target'')
      | Some content_type \<Rightarrow>
     (case parameters i of
        None \<Rightarrow> Inl (KeyError ''parameters'')
      | Some ps \<Rightarrow>
          (let topic = get_default ps ''topic'' ''general topic'';
               content = (case map_of (content_templates topic) content_type of
                            None \<Rightarrow> ''Content about '' @ topic
                          | Some text \<Rightarrow> text);
               filename = content_type @ ''_'' @ replace_char CHR '' '' CHR ''_'' topic @ ''.txt'';
               failed = (\<lambda>text w'. Inr (handler_result False
                                          (''Content creation failed: '' @ text), w'))
           in
           case refuses e (Write filename content) of
             Some text \<Rightarrow> failed text w
           | None \<Rightarrow>
               (let w1 = w\<lparr>files := (files w)(filename \<mapsto> content)\<rparr> in
                case launch e (Argv [if is_windows e then ''notepad.exe'' else ''gedit'',
                                     filename]) w1 of
                  Inl text \<Rightarrow> failed text w1
                | Inr w2 \<Rightarrow>
                    Inr (handler_result True
                           (''Created '' @ content_type @ '' about '' @ topic @ '': ''
                              @ filename), w2)))))"

text \<open>
  \<^verbatim>\<open>_capture_screenshot\<close> (lines 407 to 422): every exception of the grab is caught and
  gives \<^verbatim>\<open>None\<close>.
\<close>

definition capture_screenshot :: "env \<Rightarrow> world \<Rightarrow> string option \<times> world" where
  "capture_screenshot e w =
     (case image_grab e w of
        (Inr screenshot_path, w') \<Rightarrow> (Some screenshot_path, w')
      | (Inl exn, w') \<Rightarrow> (None, w'))"

text \<open>The dictionary that \<^verbatim>\<open>execute_intent\<close> starts from (lines 266 to 272).\<close>

definition initial_result :: execution_result where
  "initial_result =
     \<lparr>success = False, message = [], execution_time = 0.0, error = None, screenshot = None\<rparr>"

text \<open>
  The body of the \<^verbatim>\<open>try\<close> of \<^verbatim>\<open>execute_intent\<close> before the time is taken
  (lines 275 to 284). Reading \<^verbatim>\<open>intent["action"]\<close> and
  \<^verbatim>\<open>intent['original_command']\<close> raises when the key is missing.
\<close>

definition dispatch :: "env \<Rightarrow> intent \<Rightarrow> world \<Rightarrow> py_error + execution_result \<times> world" where
  "dispatch e i w =
     (case action i of
        None \<Rightarrow> Inl (KeyError ''action'')
      | Some a \<Rightarrow>
          if a = ''open_application'' then execute_app_launch e i w
          else if a = ''file_operation'' then execute_file_operation e i w
          else if a = ''system_control'' then execute_system_control e i w
          else if a = ''content_creation'' then execute_content_creation e i w
          else (case original_command i of
                  None \<Rightarrow> Inl (KeyError ''original_command'')
                | Some c \<Rightarrow> Inr (initial_result\<lparr>message := ''Unknown command: '' @ c\<rparr>, w)))"

text \<open>
  \<^verbatim>\<open>execute_intent\<close> (lines 263 to 296). When the body raises, \<^verbatim>\<open>result\<close> is still
  the initial dictionary. The function returns \<open>Inr\<close> when it returns and \<open>Inl\<close>
  when it raises to its caller.
\<close>

definition execute_intent :: "env \<Rightarrow> intent \<Rightarrow> world \<Rightarrow> py_error + execution_result \<times> world" where
  "execute_intent e i w =
     (let start_time = clock_start e in
      case dispatch e i w of
        Inr (result, w') \<Rightarrow> Inr (result\<lparr>execution_time := clock_end e - start_time\<rparr>, w')
      | Inl exn \<Rightarrow>
          (let result = initial_result\<lparr>error := Some (str_error exn),
                                       execution_time := clock_end e - start_time\<rparr> in
           if screenshot_on_error e
           then (case capture_screenshot e w of
                   (shot, w') \<Rightarrow> Inr (result\<lparr>screenshot := shot\<rparr>, w'))
           else Inr (result, w)))"

subsection \<open>\<^verbatim>\<open>SmartOSInterface.process_command\<close>\<close>

text \<open>\<^verbatim>\<open>SmartOSCore.execution_metrics\<close>\<close>

record metrics =
  total_commands :: int
  successful_commands :: int
  failed_commands :: int
  average_response_time :: real

definition initial_metrics :: metrics where
  "initial_metrics =
     \<lparr>total_commands = 0, successful_commands = 0, failed_commands = 0,
      average_response_time = 0.0\<rparr>"

text \<open>An entry of the execution log, as \<^verbatim>\<open>log_execution_result\<close> builds it.\<close>

record log_entry =
  log_timestamp :: string
  log_command :: string
  log_intent :: intent
  log_result :: execution_result
  log_execution_time :: real

text \<open>
  The state that \<^verbatim>\<open>process_command\<close> works on: the metrics counters, the execution
  log (one list of entries for each day), the operating system, and the responses
  spoken or printed so far.
\<close>

record pipeline =
  execution_metrics :: metrics
  execution_logs :: "string \<rightharpoonup> log_entry list"
  system :: world
  responses :: "string list"

definition initial_pipeline :: "world \<Rightarrow> pipeline" where
  "initial_pipeline w =
     \<lparr>execution_metrics = initial_metrics, execution_logs = Map.empty, system = w,
      responses = []\<rparr>"

text \<open>\<^verbatim>\<open>x / n\<close> of a float by an integer.\<close>

definition truediv :: "real \<Rightarrow> int \<Rightarrow> py_error + real" where
  "truediv x n = (if n = 0 then Inl ZeroDivisionError else Inr (x / real_of_int n))"

text \<open>The counters (lines 533 to 537).\<close>

definition count_command :: "execution_result \<Rightarrow> metrics \<Rightarrow> metrics" where
  "count_command result m =
     (let m1 = m\<lparr>total_commands := total_commands m + 1\<rparr> in
      if success result then m1\<lparr>successful_commands := successful_commands m1 + 1\<rparr>
      else m1\<lparr>failed_commands := failed_commands m1 + 1\<rparr>)"

text \<open>The average response time (lines 540 to 543), on the counters already updated.\<close>

definition update_average :: "execution_result \<Rightarrow> metrics \<Rightarrow> py_error + metrics" where
  "update_average result m =
     (let total_time = average_response_time m * real_of_int (total_commands m - 1)
                         + execution_time result in
      case truediv total_time (total_commands m) of
        Inl exn \<Rightarrow> Inl exn
      | Inr avg \<Rightarrow> Inr (m\<lparr>average_response_time := avg\<rparr>))"

text \<open>
  \<^verbatim>\<open>log_execution_result\<close> (lines 559 to 584): the entry goes to the end of the list
  of the day's file, a new list when the file does not exist yet.
\<close>

definition log_execution_result ::
  "env \<Rightarrow> string \<Rightarrow> intent \<Rightarrow> execution_result \<Rightarrow> (string \<rightharpoonup> log_entry list)
     \<Rightarrow> py_error + (string \<rightharpoonup> log_entry list)" where
  "log_execution_result e command i result logs =
     (let entry = \<lparr>log_timestamp = now_iso e, log_command = command, log_intent = i,
                   log_result = result, log_execution_time = execution_time result\<rparr> in
      case log_refused e of
        Some text \<Rightarrow> Inl (Fault text)
      | None \<Rightarrow>
          Inr (logs(today e \<mapsto> (case logs (today e) of None \<Rightarrow> [] | Some l \<Rightarrow> l) @ [entry])))"

definition clarification :: "string \<Rightarrow> string" where
  "clarification command =
     ''I'' @ apostrophe @ ''m not sure how to handle: '' @ apostrophe @ command @ apostrophe
       @ ''. Could you rephrase?''"

text \<open>
  \<^verbatim>\<open>process_command\<close> (lines 513 to 557). The first component of the value is the
  exception that the call raises to its caller, \<open>None\<close> when it returns; the second is
  the state it leaves. The counters are updated in place, so an exception raised after
  them leaves them updated.
\<close>

definition process_command :: "env \<Rightarrow> string \<Rightarrow> pipeline \<Rightarrow> py_error option \<times> pipeline" where
  "process_command e command s =
     (let i = parse_command command in
      case confidence i of
        None \<Rightarrow> (Some (KeyError ''confidence''), s)
      | Some c \<Rightarrow>
          if c < 0.5 then (None, s\<lparr>responses := responses s @ [clarification command]\<rparr>)
          else
            (case execute_intent e i (system s) of
               Inl exn \<Rightarrow> (Some exn, s)
             | Inr (result, w') \<Rightarrow>
                 (let s1 = s\<lparr>system := w',
                             execution_metrics := count_command result (execution_metrics s)\<rparr>
                  in
                  case update_average result (execution_metrics s1) of
                    Inl exn \<Rightarrow> (Some exn, s1)
                  | Inr m2 \<Rightarrow>
                      (let s2 = s1\<lparr>execution_metrics := m2\<rparr> in
                       case log_execution_result e command i result (execution_logs s2) of
                         Inl exn \<Rightarrow> (Some exn, s2)
                       | Inr logs' \<Rightarrow>
                           (let response =
                                  (if success result then message result
                                   else ''Failed to execute command: '' @ message result)
                            in (None, s2\<lparr>execution_logs := logs',
                                          responses := responses s2 @ [response]\<rparr>))))))"

text \<open>
  The commands of a session, one call of \<^verbatim>\<open>process_command\<close> after the other, each
  with what it reads from outside. The interaction loops catch what a call raises and go
  on with the next command.
\<close>

fun process_commands :: "(env \<times> string) list \<Rightarrow> pipeline \<Rightarrow> pipeline" where
  "process_commands [] s = s"
| "process_commands ((e, command) # rest) s =
     process_commands rest (snd (process_command e command s))"

subsection \<open>\<^verbatim>\<open>MetricsCollector.calculate_performance_metrics\<close>\<close>

text \<open>
  A data point is a dictionary read from a log file. The record has what
  \<^verbatim>\<open>calculate_performance_metrics\<close> reads of it, \<open>None\<close> where a key is missing:
  \<^verbatim>\<open>d.get('result', {}).get('success')\<close>, \<^verbatim>\<open>d['execution_time']\<close>,
  \<^verbatim>\<open>d.get('intent', {}).get('confidence')\<close> and
  \<^verbatim>\<open>d.get('intent', {}).get('action')\<close>.
\<close>

record data_point =
  dp_success :: "bool option"
  dp_execution_time :: "real option"
  dp_confidence :: "real option"
  dp_action :: "string option"

text \<open>\<^verbatim>\<open>sum(1 for x in xs if p(x))\<close>\<close>

definition count_if :: "('a \<Rightarrow> bool) \<Rightarrow> 'a list \<Rightarrow> int" where
  "count_if p xs = int (length (filter p xs))"

text \<open>The entry \<^verbatim>\<open>overview\<close> of the metrics.\<close>

record overview =
  ov_total_commands :: int
  ov_successful_commands :: int
  ov_failed_commands :: int
  ov_success_rate :: real
  ov_average_response_time :: real
  ov_intent_accuracy :: real

text \<open>The entry \<^verbatim>\<open>response_time_distribution\<close> of the metrics.\<close>

record response_time_distribution =
  under_1s :: int
  under_3s :: int
  under_5s :: int
  over_5s :: int

record performance_metrics =
  pm_overview :: overview
  pm_response_time_distribution :: response_time_distribution

text \<open>\<^verbatim>\<open>d.get('result', {}).get('success', False)\<close>\<close>

definition succeeded :: "data_point \<Rightarrow> bool" where
  "succeeded d = (case dp_success d of None \<Rightarrow> False | Some b \<Rightarrow> b)"

text \<open>
  \<^verbatim>\<open>[d.get('execution_time', 0) for d in data if 'execution_time' in d]\<close>
\<close>

definition response_times_of :: "data_point list \<Rightarrow> real list" where
  "response_times_of data =
     map (\<lambda>d. case dp_execution_time d of None \<Rightarrow> 0 | Some t \<Rightarrow> t)
         (filter (\<lambda>d. dp_execution_time d \<noteq> None) data)"

text \<open>
  \<^verbatim>\<open>calculate_performance_metrics\<close> (lines 76 to 144), its entries \<^verbatim>\<open>overview\<close> and
  \<^verbatim>\<open>response_time_distribution\<close>. Empty data give the empty dictionary, \<open>None\<close>
  here. The entries \<^verbatim>\<open>time_based\<close>, \<^verbatim>\<open>categories\<close> and
  \<^verbatim>\<open>performance_by_category\<close> change none of these numbers and are left out.
\<close>

definition calculate_performance_metrics :: "data_point list \<Rightarrow> performance_metrics option" where
  "calculate_performance_metrics data =
     (if data = [] then None
      else
        (let total_commands = int (length data);
             successful_commands = count_if succeeded data;
             failed_commands = total_commands - successful_commands;
             response_times = response_times_of data;
             avg_response_time =
               (if response_times \<noteq> []
                then sum_list response_times / real (length response_times) else 0);
             correct_intents =
               count_if (\<lambda>d. (case dp_confidence d of None \<Rightarrow> 0 | Some c \<Rightarrow> c) > 0.8) data;
             intent_accuracy =
               (if total_commands > 0
                then real_of_int correct_intents / real_of_int total_commands * 100 else 0)
         in Some
           \<lparr>pm_overview =
              \<lparr>ov_total_commands = total_commands,
               ov_successful_commands = successful_commands,
               ov_failed_commands = failed_commands,
               ov_success_rate =
                 (if total_commands > 0
                  then real_of_int successful_commands / real_of_int total_commands * 100
                  else 0),
               ov_average_response_time = avg_response_time,
               ov_intent_accuracy = intent_accuracy\<rparr>,
            pm_response_time_distribution =
              \<lparr>under_1s = count_if (\<lambda>t. t < 1.0) response_times,
               under_3s = count_if (\<lambda>t. t < 3.0) response_times,
               under_5s = count_if (\<lambda>t. t < 5.0) response_times,
               over_5s = count_if (\<lambda>t. t \<ge> 5.0) response_times\<rparr>\<rparr>))"

subsection \<open>The metrics after a dispatched command\<close>

text \<open>
  What \<^verbatim>\<open>process_command\<close> leaves in \<^verbatim>\<open>execution_metrics\<close> once the intent has
  been dispatched with a result: the counters and then the average, or the counters
  alone when the average raises.
\<close>

definition metrics_after :: "execution_result \<Rightarrow> metrics \<Rightarrow> metrics" where
  "metrics_after result m =
     (case update_average result (count_command result m) of
        Inl exn \<Rightarrow> count_command result m
      | Inr m2 \<Rightarrow> m2)"

subsection \<open>Keywords as the classifier expects them\<close>

text \<open>A keyword in lower case, without white space at its ends.\<close>

definition plain_keyword :: "string \<Rightarrow> bool" where
  "plain_keyword k \<longleftrightarrow> lower k = k \<and> k \<noteq> [] \<and> \<not> is_space (hd k) \<and> \<not> is_space (last k)"

subsection \<open>Sample inputs\<close>

text \<open>
  A system with no files and no processes, and what a call reads from outside on macOS
  when nothing is refused and the dispatch takes \<open>t\<close> seconds.
\<close>

definition sample_world :: world where
  "sample_world = \<lparr>files = Map.empty, processes = []\<rparr>"

definition sample_env :: "real \<Rightarrow> env" where
  "sample_env t =
     \<lparr>platform = ''darwin'', screenshot_on_error = True, clock_start = 0, clock_end = t,
      refuses = (\<lambda>c. None), image_grab = (\<lambda>w. (Inr ''screenshots/error.png'', w)),
      now_iso = ''2024-05-01T10:00:00'', today = ''20240501'', log_refused = None\<rparr>"

text \<open>
  Two intents for \<^verbatim>\<open>execute_intent\<close>: one whose dictionary has no key
  \<^verbatim>\<open>target\<close>, and one that deletes the file \<^verbatim>\<open>notes.txt\<close>.
\<close>

definition intent_without_target :: intent where
  "intent_without_target =
     \<lparr>action = Some ''open_application'', target = None, parameters = Some Map.empty,
      confidence = Some 0.9, original_command = Some ''open notepad''\<rparr>"

definition delete_intent :: intent where
  "delete_intent =
     \<lparr>action = Some ''file_operation'', target = Some ''delete'',
      parameters = Some [''filename'' \<mapsto> ''notes.txt''],
      confidence = Some 0.8, original_command = Some ''delete file notes.txt''\<rparr>"

text \<open>Four data points of a log: one of them has none of the keys that are read.\<close>

definition sample_data :: "data_point list" where
  "sample_data =
     [\<lparr>dp_success = Some True, dp_execution_time = Some 0.5, dp_confidence = Some 0.9,
       dp_action = Some ''open_application''\<rparr>,
      \<lparr>dp_success = Some False, dp_execution_time = Some 2, dp_confidence = Some 0.8,
       dp_action = Some ''file_operation''\<rparr>,
      \<lparr>dp_success = None, dp_execution_time = None, dp_confidence = None, dp_action = None\<rparr>,
      \<lparr>dp_success = Some True, dp_execution_time = Some 7, dp_confidence = Some 0.75,
       dp_action = Some ''content_creation''\<rparr>]"

section \<open>Properties\<close>

subsection \<open>Unfolding the definitions on concrete inputs\<close>

lemmas str_defs = strip_def lstrip_def rstrip_def lower_def to_lower_def lower_table_def
  latin1_upper_def latin1_lower_def is_space_def whitespace_def startswith_def split_def any_def slice_from_def

lemmas pattern_defs = open_application_keywords_def open_application_apps_def
  file_operations_keywords_def file_operations_actions_def system_control_keywords_def
  content_creation_keywords_def content_creation_types_def

lemmas nlu_defs = parse_command_def initial_intent_def detect_open_application_def
  detect_file_operation_def detect_system_control_def detect_content_creation_def
  set_parameter_def first_keyword_def first_target_def get_parameter_def

lemma confidence_open_notepad: "confidence (parse_command ''open notepad'') = Some 0.9"
  by (simp add: nlu_defs pattern_defs str_defs)

lemma confidence_gibberish: "confidence (parse_command ''asdkj qwoei'') = Some 0"
  by (simp add: nlu_defs pattern_defs str_defs)

subsection \<open>Substrings\<close>

lemma startswith_iff: "startswith s k \<longleftrightarrow> (\<exists>q. s = k @ q)"
proof
  assume "startswith s k"
  then have "s = k @ drop (length k) s"
    by (metis append_take_drop_id startswith_def)
  then show "\<exists>q. s = k @ q" ..
next
  assume "\<exists>q. s = k @ q"
  then show "startswith s k" by (auto simp: startswith_def)
qed

lemma str_contains_iff: "str_contains s k \<longleftrightarrow> (\<exists>p q. s = p @ k @ q)"
proof (induction s)
  case Nil
  show ?case by auto
next
  case (Cons c cs)
  show ?case
  proof
    assume "str_contains (c # cs) k"
    then consider "startswith (c # cs) k" | "str_contains cs k" by auto
    then show "\<exists>p q. c # cs = p @ k @ q"
    proof cases
      case 1
      then obtain q where "c # cs = k @ q" by (auto simp: startswith_iff)
      then have "c # cs = [] @ k @ q" by simp
      then show ?thesis by blast
    next
      case 2
      with Cons.IH obtain p q where "cs = p @ k @ q" by auto
      then have "c # cs = (c # p) @ k @ q" by simp
      then show ?thesis by blast
    qed
  next
    assume "\<exists>p q. c # cs = p @ k @ q"
    then obtain p q where pq: "c # cs = p @ k @ q" by blast
    show "str_contains (c # cs) k"
    proof (cases p)
      case Nil
      with pq have "startswith (c # cs) k" by (auto simp: startswith_iff)
      then show ?thesis by simp
    next
      case (Cons a p')
      with pq have "cs = p' @ k @ q" by simp
      with Cons.IH have "str_contains cs k" by blast
      then show ?thesis by simp
    qed
  qed
qed

lemma str_contains_lower:
  assumes "str_contains s k"
  shows "str_contains (lower s) (lower k)"
proof -
  from assms obtain p q where "s = p @ k @ q" by (auto simp: str_contains_iff)
  then have "lower s = lower p @ lower k @ lower q" by (simp add: lower_def)
  then show ?thesis by (auto simp: str_contains_iff)
qed

lemma rstrip_decomp: "\<exists>ws. s = rstrip s @ ws \<and> (\<forall>c\<in>set ws. is_space c)"
proof -
  have "rev (rev s) = rev (takeWhile is_space (rev s) @ dropWhile is_space (rev s))"
    by (simp only: takeWhile_dropWhile_id)
  then have "s = rstrip s @ rev (takeWhile is_space (rev s))"
    by (simp only: rev_rev_ident rev_append rstrip_def)
  moreover have "\<forall>c\<in>set (rev (takeWhile is_space (rev s))). is_space c"
    by (auto dest: set_takeWhileD)
  ultimately show ?thesis by blast
qed

lemma lstrip_decomp: "\<exists>ws. s = ws @ lstrip s \<and> (\<forall>c\<in>set ws. is_space c)"
proof -
  have "s = takeWhile is_space s @ lstrip s" by (simp add: lstrip_def)
  moreover have "\<forall>c\<in>set (takeWhile is_space s). is_space c"
    by (auto dest: set_takeWhileD)
  ultimately show ?thesis by blast
qed

lemma occurrence_before_trailing_space:
  assumes eq: "r @ ws = p @ k @ q"
    and ws: "\<forall>c\<in>set ws. is_space c"
    and k: "k \<noteq> []" "\<not> is_space (last k)"
  shows "\<exists>q'. r = p @ k @ q'"
proof -
  from eq have "r @ ws = (p @ k) @ q" by simp
  from append_eq_append_conv2[THEN iffD1, OF this] obtain us where
    "(r = (p @ k) @ us \<and> us @ ws = q) \<or> (r @ us = p @ k \<and> ws = us @ q)"
    by blast
  then show ?thesis
  proof
    assume "r = (p @ k) @ us \<and> us @ ws = q"
    then have "r = p @ k @ us" by simp
    then show ?thesis ..
  next
    assume a: "r @ us = p @ k \<and> ws = us @ q"
    show ?thesis
    proof (cases "us = []")
      case True
      with a have "r = p @ k @ []" by simp
      then show ?thesis ..
    next
      case False
      from a have "last (r @ us) = last (p @ k)" by simp
      with False k(1) have "last us = last k" by simp
      moreover from False a have "last us \<in> set ws" by simp
      ultimately show ?thesis using ws k(2) by auto
    qed
  qed
qed

lemma occurrence_after_leading_space:
  assumes eq: "ws @ r = p @ k @ q"
    and ws: "\<forall>c\<in>set ws. is_space c"
    and k: "k \<noteq> []" "\<not> is_space (hd k)"
  shows "\<exists>p'. r = p' @ k @ q"
proof -
  from eq have "rev (ws @ r) = rev (p @ k @ q)" by simp
  then have "rev r @ rev ws = rev q @ rev k @ rev p" by simp
  moreover have "\<forall>c\<in>set (rev ws). is_space c" using ws by simp
  moreover have "rev k \<noteq> []" "\<not> is_space (last (rev k))"
    using k by (simp_all add: last_rev)
  ultimately obtain q' where "rev r = rev q @ rev k @ q'"
    using occurrence_before_trailing_space by blast
  then have "rev (rev r) = rev (rev q @ rev k @ q')" by simp
  then have "r = rev q' @ k @ q" by simp
  then show ?thesis ..
qed

lemma str_contains_strip:
  assumes "str_contains s k" and "k \<noteq> []" and "\<not> is_space (hd k)" and "\<not> is_space (last k)"
  shows "str_contains (strip s) k"
proof -
  from assms(1) obtain p q where s: "s = p @ k @ q" by (auto simp: str_contains_iff)
  obtain ws where l: "s = ws @ lstrip s" "\<forall>c\<in>set ws. is_space c"
    using lstrip_decomp by blast
  from l(1) s have "ws @ lstrip s = p @ k @ q" by simp
  from occurrence_after_leading_space[OF this l(2) assms(2,3)]
  obtain p' where m: "lstrip s = p' @ k @ q" ..
  obtain ws' where r: "lstrip s = rstrip (lstrip s) @ ws'" "\<forall>c\<in>set ws'. is_space c"
    using rstrip_decomp by blast
  from r(1) m have "rstrip (lstrip s) @ ws' = p' @ k @ q" by simp
  from occurrence_before_trailing_space[OF this r(2) assms(2,4)]
  obtain q' where "rstrip (lstrip s) = p' @ k @ q'" ..
  then show ?thesis by (auto simp: strip_def str_contains_iff)
qed

lemma str_contains_normalised:
  assumes "str_contains command k" and "plain_keyword k"
  shows "str_contains (strip (lower command)) k"
proof -
  from str_contains_lower[OF assms(1)] assms(2)
  have "str_contains (lower command) k" by (simp add: plain_keyword_def)
  with assms(2) show ?thesis by (intro str_contains_strip) (simp_all add: plain_keyword_def)
qed

lemma plain_open_application_keywords: "\<forall>k\<in>set open_application_keywords. plain_keyword k"
  by (simp add: open_application_keywords_def plain_keyword_def str_defs)

lemma plain_file_operations_keywords: "\<forall>k\<in>set file_operations_keywords. plain_keyword k"
  by (simp add: file_operations_keywords_def plain_keyword_def str_defs)

lemma str_find_first:
  assumes "str_contains s k"
  shows "\<exists>p q. s = p @ k @ q \<and> str_find s k = int (length p)
           \<and> (\<forall>p' q'. s = p' @ k @ q' \<longrightarrow> length p \<le> length p')"
  using assms
proof (induction s)
  case Nil
  then have "k = []" by simp
  then have "[] = [] @ k @ [] \<and> str_find [] k = int (length ([]::string))
      \<and> (\<forall>p' q'. [] = p' @ k @ q' \<longrightarrow> length ([]::string) \<le> length p')"
    by simp
  then show ?case by blast
next
  case (Cons c cs)
  show ?case
  proof (cases "startswith (c # cs) k")
    case True
    then obtain q where "c # cs = k @ q" by (auto simp: startswith_iff)
    then have a: "c # cs = [] @ k @ q" by simp
    from True have b: "str_find (c # cs) k = int (length ([]::string))" by simp
    have "\<forall>p' q'. c # cs = p' @ k @ q' \<longrightarrow> length ([]::string) \<le> length p'" by simp
    with a b show ?thesis by blast
  next
    case False
    with Cons.prems have "str_contains cs k" by simp
    from Cons.IH[OF this] obtain p q where
      cs: "cs = p @ k @ q" and f: "str_find cs k = int (length p)"
      and m: "\<forall>p' q'. cs = p' @ k @ q' \<longrightarrow> length p \<le> length p'"
      by blast
    have 1: "c # cs = (c # p) @ k @ q" using cs by simp
    have 2: "str_find (c # cs) k = int (length (c # p))"
      using False f by (simp add: Let_def)
    have 3: "\<forall>p' q'. c # cs = p' @ k @ q' \<longrightarrow> length (c # p) \<le> length p'"
    proof (intro allI impI)
      fix p' q'
      assume e: "c # cs = p' @ k @ q'"
      show "length (c # p) \<le> length p'"
      proof (cases p')
        case Nil
        with e have "startswith (c # cs) k" by (auto simp: startswith_iff)
        with False show ?thesis by simp
      next
        case (Cons a p'')
        with e have "cs = p'' @ k @ q'" by simp
        with m have "length p \<le> length p''" by blast
        with Cons show ?thesis by simp
      qed
    qed
    from 1 2 3 show ?thesis by blast
  qed
qed

lemma lower_table_not_space:
  "map_of lower_table c = Some l \<Longrightarrow> \<not> is_space c \<and> \<not> is_space l"
  by (auto simp: lower_table_def latin1_upper_def latin1_lower_def is_space_def
                 whitespace_def split: if_splits)

lemma is_space_to_lower: "is_space (to_lower c) = is_space c"
  using lower_table_not_space[of c]
  by (auto simp: to_lower_def split: option.splits)

lemma lstrip_lower: "lstrip (lower s) = lower (lstrip s)"
proof -
  have "is_space \<circ> to_lower = is_space" by (auto simp: is_space_to_lower)
  then show ?thesis by (simp add: lstrip_def lower_def dropWhile_map)
qed

lemma plain_about: "plain_keyword ''about''"
  by (simp add: plain_keyword_def str_defs)

lemma topic_slice:
  assumes nolead: "lstrip command = command"
    and about: "str_contains (strip (lower command)) ''about''"
  shows "\<exists>pre mid post. command = pre @ mid @ post \<and> lower mid = ''about''
           \<and> (\<forall>p q. lower command = p @ ''about'' @ q \<longrightarrow> length pre \<le> length p)
           \<and> slice_from command (str_find (strip (lower command)) ''about'' + 5) = post"
proof -
  define R where "R = strip (lower command)"
  have "lstrip (lower command) = lower command"
    using nolead by (simp add: lstrip_lower)
  then have R: "R = rstrip (lower command)" by (simp add: R_def strip_def)
  obtain ws where L: "lower command = R @ ws" and ws: "\<forall>c\<in>set ws. is_space c"
    using rstrip_decomp[of "lower command"] R by auto
  from str_find_first[OF about] obtain p q where
    Rpq: "R = p @ ''about'' @ q" and f: "str_find R ''about'' = int (length p)"
    and m: "\<forall>p' q'. R = p' @ ''about'' @ q' \<longrightarrow> length p \<le> length p'"
    unfolding R_def by blast
  define pre where "pre = take (length p) command"
  define mid where "mid = take 5 (drop (length p) command)"
  define post where "post = drop (length p + 5) command"
  have "command = take (length p) command
           @ take 5 (drop (length p) command) @ drop 5 (drop (length p) command)"
    by (simp only: append_take_drop_id)
  moreover have "drop 5 (drop (length p) command) = post"
    by (simp add: post_def add.commute)
  ultimately have 1: "command = pre @ mid @ post"
    by (simp only: pre_def mid_def)
  have "lower mid = take 5 (drop (length p) (lower command))"
    by (simp add: mid_def lower_def take_map drop_map)
  also have "\<dots> = take 5 (''about'' @ q @ ws)" by (simp add: L Rpq)
  also have "\<dots> = ''about''" by simp
  finally have 2: "lower mid = ''about''" .
  have 3: "\<forall>p' q'. lower command = p' @ ''about'' @ q' \<longrightarrow> length pre \<le> length p'"
  proof (intro allI impI)
    fix p' q'
    assume "lower command = p' @ ''about'' @ q'"
    with L have "R @ ws = p' @ ''about'' @ q'" by simp
    from occurrence_before_trailing_space[OF this ws]
    obtain q'' where "R = p' @ ''about'' @ q''"
      using plain_about by (auto simp: plain_keyword_def)
    with m have "length p \<le> length p'" by blast
    then show "length pre \<le> length p'" by (simp add: pre_def)
  qed
  have 4: "slice_from command (str_find (strip (lower command)) ''about'' + 5) = post"
    using f by (simp add: R_def[symmetric] slice_from_def post_def nat_add_distrib)
  from 1 2 3 4 show ?thesis by blast
qed

subsection \<open>The classifier\<close>

lemma first_keyword_found:
  "k \<in> set keywords \<Longrightarrow> str_contains cl k \<Longrightarrow> first_keyword cl keywords \<noteq> None"
  by (auto simp: first_keyword_def find_None_iff)

lemma first_target_none:
  assumes "\<forall>(label, aliases)\<in>set d. \<forall>alias\<in>set aliases. \<not> str_contains cl alias"
  shows "first_target cl d = None"
  using assms by (auto simp: first_target_def find_None_iff any_def list_ex_iff)

lemma detect_open_application_action:
  "first_keyword cl open_application_keywords \<noteq> None \<Longrightarrow>
   action (detect_open_application cl i) = Some ''open_application''"
  by (auto simp: detect_open_application_def Let_def split: option.splits prod.splits)

lemma parse_command_open_application:
  assumes "first_keyword (strip (lower command)) open_application_keywords \<noteq> None"
  shows "parse_command command
           = detect_open_application (strip (lower command)) (initial_intent command)"
  using detect_open_application_action[OF assms, of "initial_intent command"]
  by (simp add: parse_command_def Let_def)

lemma no_alias_in_open_xyz:
  "\<forall>(app, aliases)\<in>set open_application_apps.
     \<forall>alias\<in>set aliases. \<not> str_contains (strip (lower ''open xyz'')) alias"
  by (simp add: open_application_apps_def str_defs)

text \<open>
  Claim C2. The priority order. A text that contains a trigger keyword of
  \<^verbatim>\<open>open_application\<close> and a trigger keyword of \<^verbatim>\<open>file_operations\<close>, as it is
  written or after \<^verbatim>\<open>lower()\<close> and \<^verbatim>\<open>strip()\<close>, is classified as
  \<^verbatim>\<open>open_application\<close>. The intent is the one that the application detection
  alone gives from the initial intent: the file operation, system control and content
  creation detections have no part in it, so it has no parameters and its confidence
  is 0.9 or 0.0.
\<close>

theorem priority_order:
  assumes "ko \<in> set open_application_keywords"
    and "str_contains command ko \<or> str_contains (strip (lower command)) ko"
    and "kf \<in> set file_operations_keywords"
    and "str_contains command kf \<or> str_contains (strip (lower command)) kf"
  shows "action (parse_command command) = Some ''open_application''
       \<and> parse_command command
           = detect_open_application (strip (lower command)) (initial_intent command)
       \<and> parameters (parse_command command) = Some Map.empty
       \<and> (confidence (parse_command command) = Some 0.9
            \<or> confidence (parse_command command) = Some 0)"
proof -
  have "str_contains (strip (lower command)) ko"
    using assms(1,2) plain_open_application_keywords str_contains_normalised by blast
  with assms(1) have f: "first_keyword (strip (lower command)) open_application_keywords \<noteq> None"
    by (rule first_keyword_found)
  note p = parse_command_open_application[OF f]
  have "action (parse_command command) = Some ''open_application''"
    unfolding p by (rule detect_open_application_action[OF f])
  moreover have "parameters (parse_command command) = Some Map.empty"
    unfolding p
    by (auto simp: detect_open_application_def initial_intent_def Let_def
             split: option.splits prod.splits)
  moreover have "confidence (parse_command command) = Some 0.9
            \<or> confidence (parse_command command) = Some 0"
    unfolding p
    by (auto simp: detect_open_application_def initial_intent_def Let_def
             split: option.splits prod.splits)
  ultimately show ?thesis using p by simp
qed

theorem priority_order_witness:
  "''open'' \<in> set open_application_keywords
   \<and> str_contains ''open notepad and create new document'' ''open''
   \<and> ''create'' \<in> set file_operations_keywords
   \<and> str_contains ''open notepad and create new document'' ''create''
   \<and> action (parse_command ''open notepad and create new document'')
        = Some ''open_application''
   \<and> parameters (parse_command ''open notepad and create new document'') = Some Map.empty"
proof -
  have a: "''open'' \<in> set open_application_keywords"
    by (simp add: open_application_keywords_def)
  have b: "str_contains ''open notepad and create new document'' ''open''"
    by (simp add: startswith_def)
  have c: "''create'' \<in> set file_operations_keywords"
    by (simp add: file_operations_keywords_def)
  have d: "str_contains ''open notepad and create new document'' ''create''"
    by (simp add: startswith_def)
  from priority_order[OF a disjI1[OF b] c disjI1[OF d]] a b c d
  show ?thesis by blast
qed

text \<open>
  Claim C4, amended. When a trigger keyword of \<^verbatim>\<open>open_application\<close> is in the
  normalised text and no alias of any application is, the intent has the action
  \<^verbatim>\<open>open_application\<close>, the empty target and the confidence 0.0 of the initial
  intent: the confidence 0.9 is assigned only in the branch that finds an alias, together
  with the target.
\<close>

theorem unmatched_target_confidence:
  assumes "k \<in> set open_application_keywords"
    and "str_contains (strip (lower command)) k"
    and "\<forall>(app, aliases)\<in>set open_application_apps.
           \<forall>alias\<in>set aliases. \<not> str_contains (strip (lower command)) alias"
  shows "action (parse_command command) = Some ''open_application''
       \<and> target (parse_command command) = Some []
       \<and> confidence (parse_command command) = Some 0.0"
proof -
  from assms(1,2)
  have f: "first_keyword (strip (lower command)) open_application_keywords \<noteq> None"
    by (rule first_keyword_found)
  have t: "first_target (strip (lower command)) open_application_apps = None"
    by (rule first_target_none[OF assms(3)])
  show ?thesis
    unfolding parse_command_open_application[OF f]
    using f t
    by (auto simp: detect_open_application_def initial_intent_def Let_def
             split: option.splits)
qed

theorem unmatched_target_confidence_witness:
  "''open'' \<in> set open_application_keywords
   \<and> str_contains (strip (lower ''open xyz'')) ''open''
   \<and> first_target (strip (lower ''open xyz'')) open_application_apps = None
   \<and> action (parse_command ''open xyz'') = Some ''open_application''
   \<and> target (parse_command ''open xyz'') = Some []
   \<and> confidence (parse_command ''open xyz'') = Some 0.0"
proof -
  have a: "''open'' \<in> set open_application_keywords"
    by (simp add: open_application_keywords_def)
  have b: "str_contains (strip (lower ''open xyz'')) ''open''"
    by (simp add: str_defs)
  from unmatched_target_confidence[OF a b no_alias_in_open_xyz] a b
    first_target_none[OF no_alias_in_open_xyz]
  show ?thesis by blast
qed

text \<open>
  The claim C4 as it was stated, with the confidence 0.90, fails for the text
  \<^verbatim>\<open>open xyz\<close>: the keyword \<^verbatim>\<open>open\<close> is found, no alias is, and the confidence
  is 0.0.
\<close>

theorem unmatched_target_confidence_counterexample:
  "first_keyword (strip (lower ''open xyz'')) open_application_keywords = Some ''open''
   \<and> first_target (strip (lower ''open xyz'')) open_application_apps = None
   \<and> action (parse_command ''open xyz'') = Some ''open_application''
   \<and> target (parse_command ''open xyz'') = Some []
   \<and> confidence (parse_command ''open xyz'') = Some 0.0
   \<and> confidence (parse_command ''open xyz'') \<noteq> Some 0.9"
  by (simp add: nlu_defs pattern_defs str_defs)

lemma detect_open_application_cases:
  "detect_open_application cl i = i
   \<or> action (detect_open_application cl i) = Some ''open_application''"
  by (auto simp: detect_open_application_def Let_def split: option.splits prod.splits)

lemma detect_file_operation_cases:
  "detect_file_operation command cl i = i
   \<or> action (detect_file_operation command cl i) = Some ''file_operation''"
  by (auto simp: detect_file_operation_def set_parameter_def Let_def
           split: option.splits prod.splits)

lemma detect_system_control_cases:
  "detect_system_control cl i = i
   \<or> action (detect_system_control cl i) = Some ''system_control''"
  by (auto simp: detect_system_control_def split: option.splits)

lemma parse_command_content_creation:
  assumes "action (parse_command command) = Some ''content_creation''"
  shows "parse_command command
           = detect_content_creation command (strip (lower command)) (initial_intent command)"
proof -
  define cl where "cl = strip (lower command)"
  define i0 where "i0 = initial_intent command"
  have u: "action i0 = Some ''unknown''" by (simp add: i0_def initial_intent_def)
  have 1: "detect_open_application cl i0 = i0"
    using detect_open_application_cases[of cl i0] assms
    by (auto simp: parse_command_def Let_def cl_def i0_def)
  have 2: "detect_file_operation command cl i0 = i0"
    using detect_file_operation_cases[of command cl i0] assms 1 u
    by (auto simp: parse_command_def Let_def cl_def[symmetric] i0_def[symmetric])
  have 3: "detect_system_control cl i0 = i0"
    using detect_system_control_cases[of cl i0] assms 1 2 u
    by (auto simp: parse_command_def Let_def cl_def[symmetric] i0_def[symmetric])
  show ?thesis
    using 1 2 3 u by (simp add: parse_command_def Let_def cl_def[symmetric] i0_def[symmetric])
qed

lemma content_creation_types_nonempty:
  "first_keyword cl content_creation_types = Some ct \<Longrightarrow> ct \<noteq> []"
  by (auto simp: first_keyword_def find_Some_iff content_creation_types_def nth_Cons'
           split: if_splits)

lemma content_creation_intent:
  assumes "action (parse_command command) = Some ''content_creation''"
  shows "(first_keyword (strip (lower command)) content_creation_types = None
          \<and> target (parse_command command) = Some []
          \<and> parameters (parse_command command) = Some Map.empty)
       \<or> (\<exists>ct. first_keyword (strip (lower command)) content_creation_types = Some ct
            \<and> ct \<noteq> []
            \<and> target (parse_command command) = Some ct
            \<and> (str_contains (strip (lower command)) ''about'' \<longrightarrow>
                 get_parameter (parse_command command) ''topic''
                   = Some (strip (slice_from command
                        (str_find (strip (lower command)) ''about'' + 5)))))"
proof (cases "first_keyword (strip (lower command)) content_creation_types")
  case None
  then show ?thesis
    unfolding parse_command_content_creation[OF assms]
    by (auto simp: detect_content_creation_def initial_intent_def Let_def split: option.splits)
next
  case (Some ct)
  have "ct \<noteq> []" by (rule content_creation_types_nonempty[OF Some])
  moreover have "target (parse_command command) = Some ct"
    using assms Some unfolding parse_command_content_creation[OF assms]
    by (auto simp: detect_content_creation_def initial_intent_def set_parameter_def Let_def
             split: option.splits)
  moreover have "get_parameter (parse_command command) ''topic''
                   = Some (strip (slice_from command
                        (str_find (strip (lower command)) ''about'' + 5)))"
    if "str_contains (strip (lower command)) ''about''"
    using assms Some that unfolding parse_command_content_creation[OF assms]
    by (auto simp: detect_content_creation_def initial_intent_def set_parameter_def
                   get_parameter_def Let_def
             split: option.splits)
  ultimately show ?thesis using Some by blast
qed

lemma parse_compose_essay:
  "action (parse_command ''compose essay about cats'') = Some ''content_creation''"
  "target (parse_command ''compose essay about cats'') = Some ''essay''"
  "get_parameter (parse_command ''compose essay about cats'') ''topic'' = Some ''cats''"
  by (simp_all add: nlu_defs pattern_defs str_defs)

text \<open>
  The index of \<^verbatim>\<open>about\<close> is found in the stripped text and slices the text as it
  was given: a leading white space, the no-break space 0xA0 here, moves the slice.
\<close>

lemma leading_space_shifts_topic:
  "lstrip (CHR 0xA0 # ''compose essay about cats'') = ''compose essay about cats''"
  "get_parameter (parse_command (CHR 0xA0 # ''compose essay about cats'')) ''topic''
     = Some ''t cats''"
  by (simp_all add: nlu_defs pattern_defs str_defs)

text \<open>
  Claim C9, amended. Take a text of code points below 256 (on these \<^verbatim>\<open>lower()\<close>
  keeps every character at its position) that is classified as
  \<^verbatim>\<open>content_creation\<close> and contains \<^verbatim>\<open>about\<close>, as it is written or after
  \<^verbatim>\<open>lower()\<close> and \<^verbatim>\<open>strip()\<close>. When a content type was resolved as the target
  and the text has no leading white space (in the sense of \<^verbatim>\<open>str.isspace\<close>, with
  0x85 and 0xA0), the parameter \<^verbatim>\<open>topic\<close> is the part of the original text after
  the first occurrence of \<^verbatim>\<open>about\<close> in any case of its letters, stripped of the
  white space around it. When no content type was resolved (the target is empty), the
  intent has no topic and no parameter at all: the topic is extracted in the branch of
  the matching content type.
\<close>

theorem topic_extraction:
  assumes "action (parse_command command) = Some ''content_creation''"
    and "str_contains command ''about'' \<or> str_contains (strip (lower command)) ''about''"
  shows "(target (parse_command command) \<noteq> Some [] \<longrightarrow> lstrip command = command \<longrightarrow>
            (\<exists>pre mid post. command = pre @ mid @ post \<and> lower mid = ''about''
               \<and> (\<forall>p q. lower command = p @ ''about'' @ q \<longrightarrow> length pre \<le> length p)
               \<and> get_parameter (parse_command command) ''topic'' = Some (strip post)))
       \<and> (target (parse_command command) = Some [] \<longrightarrow>
            get_parameter (parse_command command) ''topic'' = None
          \<and> parameters (parse_command command) = Some Map.empty)"
proof (intro conjI impI)
  have about: "str_contains (strip (lower command)) ''about''"
    using assms(2) str_contains_normalised[OF _ plain_about] by blast
  {
    assume t: "target (parse_command command) \<noteq> Some []" and n: "lstrip command = command"
    from content_creation_intent[OF assms(1)] t about
    have g: "get_parameter (parse_command command) ''topic''
               = Some (strip (slice_from command
                    (str_find (strip (lower command)) ''about'' + 5)))"
      by auto
    from topic_slice[OF n about] obtain pre mid post where
      "command = pre @ mid @ post" "lower mid = ''about''"
      "\<forall>p q. lower command = p @ ''about'' @ q \<longrightarrow> length pre \<le> length p"
      "slice_from command (str_find (strip (lower command)) ''about'' + 5) = post"
      by blast
    with g show "\<exists>pre mid post. command = pre @ mid @ post \<and> lower mid = ''about''
               \<and> (\<forall>p q. lower command = p @ ''about'' @ q \<longrightarrow> length pre \<le> length p)
               \<and> get_parameter (parse_command command) ''topic'' = Some (strip post)"
      by auto
  }
  {
    assume t: "target (parse_command command) = Some []"
    from content_creation_intent[OF assms(1)] t
    have p: "parameters (parse_command command) = Some Map.empty" by auto
    then show "get_parameter (parse_command command) ''topic'' = None"
      by (simp add: get_parameter_def)
    from p show "parameters (parse_command command) = Some Map.empty" .
  }
qed

theorem topic_extraction_witness:
  "action (parse_command ''compose essay about cats'') = Some ''content_creation''
   \<and> str_contains ''compose essay about cats'' ''about''
   \<and> target (parse_command ''compose essay about cats'') = Some ''essay''
   \<and> lstrip ''compose essay about cats'' = ''compose essay about cats''
   \<and> (\<exists>pre mid post. ''compose essay about cats'' = pre @ mid @ post
          \<and> lower mid = ''about''
          \<and> get_parameter (parse_command ''compose essay about cats'') ''topic''
               = Some (strip post))
   \<and> get_parameter (parse_command ''compose essay about cats'') ''topic'' = Some ''cats''"
proof -
  have b: "str_contains ''compose essay about cats'' ''about''"
    by (simp add: startswith_def)
  have t: "target (parse_command ''compose essay about cats'') \<noteq> Some []"
    by (simp add: parse_compose_essay(2))
  have n: "lstrip ''compose essay about cats'' = ''compose essay about cats''"
    by (simp add: str_defs)
  from topic_extraction[OF parse_compose_essay(1) disjI1[OF b]] t n
  have "\<exists>pre mid post. ''compose essay about cats'' = pre @ mid @ post
          \<and> lower mid = ''about''
          \<and> get_parameter (parse_command ''compose essay about cats'') ''topic''
               = Some (strip post)"
    by blast
  with parse_compose_essay b n show ?thesis by blast
qed

text \<open>
  The claim C9 as it was stated, with the topic extracted whether or not a content type
  was resolved, fails for the text \<^verbatim>\<open>compose about cats\<close>: the action is
  \<^verbatim>\<open>content_creation\<close>, the text contains \<^verbatim>\<open>about\<close>, what follows it is
  \<^verbatim>\<open>cats\<close>, and the intent has no topic.
\<close>

theorem topic_extraction_counterexample:
  "action (parse_command ''compose about cats'') = Some ''content_creation''
   \<and> str_contains ''compose about cats'' ''about''
   \<and> target (parse_command ''compose about cats'') = Some []
   \<and> parameters (parse_command ''compose about cats'') = Some Map.empty
   \<and> get_parameter (parse_command ''compose about cats'') ''topic'' = None
   \<and> strip (slice_from ''compose about cats'' (str_find ''compose about cats'' ''about'' + 5))
        = ''cats''
   \<and> get_parameter (parse_command ''compose about cats'') ''topic'' \<noteq> Some ''cats''"
  by (simp add: nlu_defs pattern_defs str_defs)

subsection \<open>Counting\<close>

lemma count_if_mono:
  assumes "\<And>x. p x \<Longrightarrow> q x"
  shows "count_if p xs \<le> count_if q xs"
proof (induction xs)
  case Nil
  show ?case by (simp add: count_if_def)
next
  case (Cons x xs)
  then show ?case using assms[of x] by (auto simp: count_if_def)
qed

lemma count_if_le_length: "count_if p xs \<le> int (length xs)"
  by (simp add: count_if_def)

lemma count_if_complement:
  "count_if p xs + count_if (\<lambda>x. \<not> p x) xs = int (length xs)"
  by (induction xs) (auto simp: count_if_def)

lemma length_response_times_of: "length (response_times_of data) \<le> length data"
  by (simp add: response_times_of_def)

lemma response_times_of_all:
  "list_all (\<lambda>d. dp_execution_time d \<noteq> None) data \<Longrightarrow>
     length (response_times_of data) = length data"
  by (induction data) (auto simp: response_times_of_def)

subsection \<open>The response time distribution\<close>

text \<open>
  Claim C5. For every list of data points that \<^verbatim>\<open>calculate_performance_metrics\<close>
  gets, the response time distribution is cumulative:
  \<open>under_1s \<le> under_3s \<le> under_5s \<le> total_commands\<close>. \<open>under_3s\<close> counts every
  response time below 3.0 and \<open>under_5s\<close> every one below 5.0, each a superset of the
  bucket before it, and \<open>over_5s\<close> is the complement of \<open>under_5s\<close> among the
  response times (among all the commands when every data point has its
  \<^verbatim>\<open>execution_time\<close>). Non-empty data always give the metrics; empty data give the
  empty dictionary, which has no distribution.
\<close>

theorem histogram_cumulative:
  "(data \<noteq> [] \<longrightarrow> calculate_performance_metrics data \<noteq> None) \<and>
   (\<forall>pm. calculate_performance_metrics data = Some pm \<longrightarrow>
      (let h = pm_response_time_distribution pm; ts = response_times_of data in
         under_1s h \<le> under_3s h \<and> under_3s h \<le> under_5s h
       \<and> under_5s h \<le> ov_total_commands (pm_overview pm)
       \<and> under_1s h = count_if (\<lambda>t. t < 1) ts
       \<and> under_3s h = count_if (\<lambda>t. t < 3) ts
       \<and> under_5s h = count_if (\<lambda>t. t < 5) ts
       \<and> set (filter (\<lambda>t. t < 1) ts) \<subseteq> set (filter (\<lambda>t. t < 3) ts)
       \<and> set (filter (\<lambda>t. t < 3) ts) \<subseteq> set (filter (\<lambda>t. t < 5) ts)
       \<and> under_5s h + over_5s h = int (length ts)
       \<and> (list_all (\<lambda>d. dp_execution_time d \<noteq> None) data \<longrightarrow>
            over_5s h = ov_total_commands (pm_overview pm) - under_5s h)))"
proof (intro conjI allI impI)
  assume "data \<noteq> []"
  then show "calculate_performance_metrics data \<noteq> None"
    by (simp add: calculate_performance_metrics_def Let_def)
next
  fix pm
  assume pm: "calculate_performance_metrics data = Some pm"
  define ts where "ts = response_times_of data"
  define h where "h = pm_response_time_distribution pm"
  from pm have ne: "data \<noteq> []"
    by (auto simp: calculate_performance_metrics_def split: if_splits)
  from pm ne have tot: "ov_total_commands (pm_overview pm) = int (length data)"
    by (auto simp: calculate_performance_metrics_def Let_def)
  from pm ne have u1: "under_1s h = count_if (\<lambda>t. t < 1) ts"
    and u3: "under_3s h = count_if (\<lambda>t. t < 3) ts"
    and u5: "under_5s h = count_if (\<lambda>t. t < 5) ts"
    and o5: "over_5s h = count_if (\<lambda>t. \<not> t < 5) ts"
    by (auto simp: calculate_performance_metrics_def Let_def h_def ts_def not_less)
  have a: "under_1s h \<le> under_3s h" unfolding u1 u3 by (rule count_if_mono) simp
  have b: "under_3s h \<le> under_5s h" unfolding u3 u5 by (rule count_if_mono) simp
  have "under_5s h \<le> int (length ts)" unfolding u5 by (rule count_if_le_length)
  also have "\<dots> \<le> int (length data)"
    unfolding ts_def using length_response_times_of[of data] by simp
  finally have c: "under_5s h \<le> ov_total_commands (pm_overview pm)" by (simp add: tot)
  have d: "under_5s h + over_5s h = int (length ts)"
    unfolding u5 o5 by (rule count_if_complement)
  have e: "over_5s h = ov_total_commands (pm_overview pm) - under_5s h"
    if "list_all (\<lambda>d. dp_execution_time d \<noteq> None) data"
    using d response_times_of_all[OF that] by (simp add: tot ts_def)
  show "let h = pm_response_time_distribution pm; ts = response_times_of data in
         under_1s h \<le> under_3s h \<and> under_3s h \<le> under_5s h
       \<and> under_5s h \<le> ov_total_commands (pm_overview pm)
       \<and> under_1s h = count_if (\<lambda>t. t < 1) ts
       \<and> under_3s h = count_if (\<lambda>t. t < 3) ts
       \<and> under_5s h = count_if (\<lambda>t. t < 5) ts
       \<and> set (filter (\<lambda>t. t < 1) ts) \<subseteq> set (filter (\<lambda>t. t < 3) ts)
       \<and> set (filter (\<lambda>t. t < 3) ts) \<subseteq> set (filter (\<lambda>t. t < 5) ts)
       \<and> under_5s h + over_5s h = int (length ts)
       \<and> (list_all (\<lambda>d. dp_execution_time d \<noteq> None) data \<longrightarrow>
            over_5s h = ov_total_commands (pm_overview pm) - under_5s h)"
    using a b c d e u1 u3 u5 unfolding Let_def h_def[symmetric] ts_def[symmetric] by auto
qed

theorem histogram_cumulative_witness:
  "sample_data \<noteq> [] \<and>
   (\<exists>pm. calculate_performance_metrics sample_data = Some pm
      \<and> under_1s (pm_response_time_distribution pm) = 1
      \<and> under_3s (pm_response_time_distribution pm) = 2
      \<and> under_5s (pm_response_time_distribution pm) = 2
      \<and> over_5s (pm_response_time_distribution pm) = 1
      \<and> under_5s (pm_response_time_distribution pm) \<le> ov_total_commands (pm_overview pm))"
proof -
  have ne: "sample_data \<noteq> []" by (simp add: sample_data_def)
  with histogram_cumulative[of sample_data]
  obtain pm where pm: "calculate_performance_metrics sample_data = Some pm" by auto
  have ts: "response_times_of sample_data = [0.5, 2, 7]"
    by (simp add: response_times_of_def sample_data_def del: not_None_eq)
  from histogram_cumulative[of sample_data] pm
  have "under_1s (pm_response_time_distribution pm) = 1
      \<and> under_3s (pm_response_time_distribution pm) = 2
      \<and> under_5s (pm_response_time_distribution pm) = 2
      \<and> over_5s (pm_response_time_distribution pm) = 1
      \<and> under_5s (pm_response_time_distribution pm) \<le> ov_total_commands (pm_overview pm)"
    by (simp add: Let_def ts count_if_def)
  with ne pm show ?thesis by blast
qed

subsection \<open>The dispatch boundary returns\<close>

lemma execute_intent_returns:
  "\<exists>result w'. execute_intent e i w = Inr (result, w')
      \<and> execution_time result = clock_end e - clock_start e"
  by (cases "dispatch e i w")
     (auto simp: execute_intent_def Let_def split: prod.splits)

text \<open>
  Claim C3. The dispatch failure boundary. For every intent \<^verbatim>\<open>execute_intent\<close>
  returns a result and raises nothing to its caller, and the \<^verbatim>\<open>execution_time\<close> of
  the result is the difference of the two clock readings around the dispatch, whatever
  the outcome. When a handler (or reading the intent) raises, the text of the exception
  is in \<^verbatim>\<open>error\<close>, \<^verbatim>\<open>success\<close> is false, and with \<^verbatim>\<open>screenshot_on_error\<close>
  configured the result of the diagnostic capture is attached as \<^verbatim>\<open>screenshot\<close>.
\<close>

theorem dispatch_failure_boundary:
  "\<exists>result w'. execute_intent e i w = Inr (result, w')
      \<and> execution_time result = clock_end e - clock_start e
      \<and> (\<forall>exn. dispatch e i w = Inl exn \<longrightarrow>
             error result = Some (str_error exn)
           \<and> \<not> success result
           \<and> (screenshot_on_error e \<longrightarrow>
                 screenshot result = fst (capture_screenshot e w)
               \<and> w' = snd (capture_screenshot e w)))"
proof (cases "dispatch e i w")
  case (Inl exn)
  then show ?thesis
    by (cases "capture_screenshot e w")
       (simp add: execute_intent_def Let_def initial_result_def)
next
  case (Inr rw)
  then show ?thesis
    by (cases rw) (simp add: execute_intent_def Let_def)
qed

theorem dispatch_failure_boundary_witness:
  "dispatch (sample_env 2) intent_without_target sample_world = Inl (KeyError ''target'')
   \<and> screenshot_on_error (sample_env 2)
   \<and> (\<exists>result w'. execute_intent (sample_env 2) intent_without_target sample_world
                      = Inr (result, w')
         \<and> execution_time result = 2
         \<and> error result = Some (apostrophe @ ''target'' @ apostrophe)
         \<and> \<not> success result
         \<and> screenshot result = Some ''screenshots/error.png'')"
proof -
  have d: "dispatch (sample_env 2) intent_without_target sample_world
             = Inl (KeyError ''target'')"
    by (simp add: dispatch_def execute_app_launch_def intent_without_target_def)
  have c: "screenshot_on_error (sample_env 2)" by (simp add: sample_env_def)
  have g: "fst (capture_screenshot (sample_env 2) sample_world) = Some ''screenshots/error.png''"
    by (simp add: capture_screenshot_def sample_env_def)
  have t: "clock_end (sample_env 2) - clock_start (sample_env 2) = 2"
    by (simp add: sample_env_def)
  from dispatch_failure_boundary[of "sample_env 2" intent_without_target sample_world]
  obtain result w' where
    r: "execute_intent (sample_env 2) intent_without_target sample_world = Inr (result, w')"
    and x: "execution_time result = clock_end (sample_env 2) - clock_start (sample_env 2)"
    and f: "\<forall>exn. dispatch (sample_env 2) intent_without_target sample_world = Inl exn \<longrightarrow>
             error result = Some (str_error exn)
           \<and> \<not> success result
           \<and> (screenshot_on_error (sample_env 2) \<longrightarrow>
                 screenshot result = fst (capture_screenshot (sample_env 2) sample_world)
               \<and> w' = snd (capture_screenshot (sample_env 2) sample_world))"
    by blast
  from f[rule_format, OF d] c g have
    "error result = Some (apostrophe @ ''target'' @ apostrophe)" "\<not> success result"
    "screenshot result = Some ''screenshots/error.png''"
    by simp_all
  with d c r x t show ?thesis by simp
qed

text \<open>
  Claim C7. Delete on a missing path. For a \<^verbatim>\<open>file_operation\<close> intent with the
  target \<^verbatim>\<open>delete\<close> whose file name (the parameter \<^verbatim>\<open>filename\<close>, or
  \<^verbatim>\<open>untitled.txt\<close>) does not exist, the dispatch returns \<^verbatim>\<open>success = False\<close> with
  the message \<^verbatim>\<open>File not found: \<close> and the name, no exception is raised or recorded,
  and the system is left as it was: no file is removed or modified.
\<close>

theorem delete_missing_file:
  assumes "action i = Some ''file_operation''"
    and "target i = Some ''delete''"
    and "parameters i = Some ps"
    and "get_default ps ''filename'' ''untitled.txt'' \<notin> dom (files w)"
  shows "\<exists>result. execute_intent e i w = Inr (result, w)
           \<and> \<not> success result
           \<and> message result
               = ''File not found: '' @ get_default ps ''filename'' ''untitled.txt''
           \<and> error result = None
           \<and> screenshot result = None"
proof -
  have "dispatch e i w
          = Inr (handler_result False
                   (''File not found: '' @ get_default ps ''filename'' ''untitled.txt''), w)"
    using assms by (simp add: dispatch_def execute_file_operation_def Let_def)
  then show ?thesis
    by (simp add: execute_intent_def Let_def handler_result_def)
qed

theorem delete_missing_file_witness:
  "action delete_intent = Some ''file_operation''
   \<and> target delete_intent = Some ''delete''
   \<and> parameters delete_intent = Some [''filename'' \<mapsto> ''notes.txt'']
   \<and> get_default [''filename'' \<mapsto> ''notes.txt''] ''filename'' ''untitled.txt''
        \<notin> dom (files sample_world)
   \<and> (\<exists>result. execute_intent (sample_env 2) delete_intent sample_world
                   = Inr (result, sample_world)
          \<and> \<not> success result
          \<and> message result = ''File not found: notes.txt''
          \<and> error result = None
          \<and> screenshot result = None)"
proof -
  have a: "action delete_intent = Some ''file_operation''"
    and b: "target delete_intent = Some ''delete''"
    and c: "parameters delete_intent = Some [''filename'' \<mapsto> ''notes.txt'']"
    by (simp_all add: delete_intent_def)
  have d: "get_default [''filename'' \<mapsto> ''notes.txt''] ''filename'' ''untitled.txt''
             \<notin> dom (files sample_world)"
    by (simp add: sample_world_def)
  have n: "get_default [''filename'' \<mapsto> ''notes.txt''] ''filename'' ''untitled.txt''
             = ''notes.txt''"
    by (simp add: get_default_def)
  from delete_missing_file[OF a b c d, of "sample_env 2"] a b c d
  show ?thesis by (simp add: n)
qed

subsection \<open>The metrics counters of the pipeline\<close>

lemma total_commands_count_command [simp]:
  "total_commands (count_command result m) = total_commands m + 1"
  by (simp add: count_command_def Let_def)

lemma average_count_command [simp]:
  "average_response_time (count_command result m) = average_response_time m"
  by (simp add: count_command_def Let_def)

lemma counters_count_command:
  "total_commands m = successful_commands m + failed_commands m \<Longrightarrow>
   total_commands (count_command result m)
     = successful_commands (count_command result m) + failed_commands (count_command result m)"
  by (simp add: count_command_def Let_def)

lemma update_average_raises_iff:
  "update_average result m = Inl exn \<longleftrightarrow> exn = ZeroDivisionError \<and> total_commands m = 0"
  by (auto simp: update_average_def truediv_def Let_def split: sum.splits if_splits)

lemma update_average_returns:
  "total_commands m \<noteq> 0 \<Longrightarrow>
   update_average result m =
     Inr (m\<lparr>average_response_time :=
              (average_response_time m * real_of_int (total_commands m - 1)
                 + execution_time result) / real_of_int (total_commands m)\<rparr>)"
  by (simp add: update_average_def truediv_def Let_def)

lemma process_command_miss:
  assumes "confidence (parse_command command) = Some c" and "c < 0.5"
  shows "process_command e command s
           = (None, s\<lparr>responses := responses s @ [clarification command]\<rparr>)"
  using assms by (simp add: process_command_def Let_def)

lemma process_command_dispatched:
  assumes "confidence (parse_command command) = Some c" and "\<not> c < 0.5"
    and "execute_intent e (parse_command command) (system s) = Inr (result, w')"
  shows "execution_metrics (snd (process_command e command s))
           = metrics_after result (execution_metrics s)"
  using assms
  by (auto simp: process_command_def metrics_after_def Let_def split: sum.splits prod.splits)

lemma process_command_metrics:
  "execution_metrics (snd (process_command e command s)) = execution_metrics s
   \<or> (\<exists>result. execution_metrics (snd (process_command e command s))
                  = metrics_after result (execution_metrics s))"
proof (cases "confidence (parse_command command)")
  case None
  then show ?thesis by (simp add: process_command_def Let_def)
next
  case (Some c)
  show ?thesis
  proof (cases "c < 0.5")
    case True
    from process_command_miss[OF Some True] show ?thesis by simp
  next
    case False
    obtain result w' where
      "execute_intent e (parse_command command) (system s) = Inr (result, w')"
      using execute_intent_returns by blast
    from process_command_dispatched[OF Some False this] show ?thesis by blast
  qed
qed

lemma counters_metrics_after:
  "total_commands m = successful_commands m + failed_commands m \<Longrightarrow>
   total_commands (metrics_after result m)
     = successful_commands (metrics_after result m) + failed_commands (metrics_after result m)"
  using counters_count_command[of m result]
  by (auto simp: metrics_after_def update_average_def Let_def split: sum.splits)

lemma total_metrics_after [simp]:
  "total_commands (metrics_after result m) = total_commands m + 1"
  by (auto simp: metrics_after_def update_average_def Let_def split: sum.splits)

lemma process_command_counters:
  assumes "total_commands (execution_metrics s)
             = successful_commands (execution_metrics s) + failed_commands (execution_metrics s)"
  shows "total_commands (execution_metrics (snd (process_command e command s)))
           = successful_commands (execution_metrics (snd (process_command e command s)))
             + failed_commands (execution_metrics (snd (process_command e command s)))"
  using process_command_metrics[of e command s] assms counters_metrics_after
  by auto

lemma process_command_total_nonneg:
  assumes "0 \<le> total_commands (execution_metrics s)"
  shows "0 \<le> total_commands (execution_metrics (snd (process_command e command s)))"
  using process_command_metrics[of e command s] assms by auto

lemma process_commands_counters:
  "total_commands (execution_metrics s)
     = successful_commands (execution_metrics s) + failed_commands (execution_metrics s) \<Longrightarrow>
   total_commands (execution_metrics (process_commands cmds s))
     = successful_commands (execution_metrics (process_commands cmds s))
       + failed_commands (execution_metrics (process_commands cmds s))"
proof (induction cmds arbitrary: s)
  case Nil
  then show ?case by simp
next
  case (Cons a cmds)
  obtain e command where a: "a = (e, command)" by (cases a)
  show ?case unfolding a process_commands.simps
    by (rule Cons.IH) (rule process_command_counters[OF Cons.prems])
qed

lemma process_commands_total_nonneg:
  "0 \<le> total_commands (execution_metrics s) \<Longrightarrow>
   0 \<le> total_commands (execution_metrics (process_commands cmds s))"
proof (induction cmds arbitrary: s)
  case Nil
  then show ?case by simp
next
  case (Cons a cmds)
  obtain e command where a: "a = (e, command)" by (cases a)
  show ?case unfolding a process_commands.simps
    by (rule Cons.IH) (rule process_command_total_nonneg[OF Cons.prems])
qed

lemma process_command_average:
  assumes "confidence (parse_command command) = Some c" and "\<not> c < 0.5"
    and "0 \<le> total_commands (execution_metrics s)"
  shows "average_response_time (execution_metrics (snd (process_command e command s)))
           = (average_response_time (execution_metrics s)
                * real_of_int (total_commands (execution_metrics s))
              + (clock_end e - clock_start e))
             / (real_of_int (total_commands (execution_metrics s)) + 1)"
    and "total_commands (execution_metrics (snd (process_command e command s)))
           = total_commands (execution_metrics s) + 1"
proof -
  obtain result w' where
    r: "execute_intent e (parse_command command) (system s) = Inr (result, w')"
    and t: "execution_time result = clock_end e - clock_start e"
    using execute_intent_returns by blast
  have m: "execution_metrics (snd (process_command e command s))
             = metrics_after result (execution_metrics s)"
    by (rule process_command_dispatched[OF assms(1,2) r])
  have "total_commands (count_command result (execution_metrics s)) \<noteq> 0"
    using assms(3) by simp
  from update_average_returns[OF this]
  show "average_response_time (execution_metrics (snd (process_command e command s)))
           = (average_response_time (execution_metrics s)
                * real_of_int (total_commands (execution_metrics s))
              + (clock_end e - clock_start e))
             / (real_of_int (total_commands (execution_metrics s)) + 1)"
    by (simp add: m metrics_after_def t)
  show "total_commands (execution_metrics (snd (process_command e command s)))
           = total_commands (execution_metrics s) + 1"
    by (simp add: m)
qed

lemma process_command_zero_division:
  assumes "fst (process_command e command s) = Some ZeroDivisionError"
  shows "total_commands (execution_metrics s) = - 1"
proof (cases "confidence (parse_command command)")
  case None
  with assms show ?thesis by (simp add: process_command_def Let_def)
next
  case (Some c)
  show ?thesis
  proof (cases "c < 0.5")
    case True
    from process_command_miss[OF Some True] assms show ?thesis by simp
  next
    case False
    obtain result w' where
      r: "execute_intent e (parse_command command) (system s) = Inr (result, w')"
      using execute_intent_returns by blast
    show ?thesis
    proof (cases "update_average result (count_command result (execution_metrics s))")
      case (Inl exn)
      then have "total_commands (count_command result (execution_metrics s)) = 0"
        by (simp add: update_average_raises_iff)
      then show ?thesis by simp
    next
      case (Inr m2)
      with assms Some False r show ?thesis
        by (auto simp: process_command_def Let_def log_execution_result_def
                 split: sum.splits option.splits)
    qed
  qed
qed

text \<open>
  Claim C6. Count consistency. For every list of data points the metrics computed from
  it satisfy \<open>total_commands = successful_commands + failed_commands\<close> (and non-empty
  data always give the metrics). The pipeline starts with all its counters zero and keeps
  the same equality after every processed command, whatever the commands are and
  whatever each of them reads from outside.
\<close>

theorem count_consistency:
  "(\<forall>pm. calculate_performance_metrics data = Some pm \<longrightarrow>
      ov_total_commands (pm_overview pm)
        = ov_successful_commands (pm_overview pm) + ov_failed_commands (pm_overview pm))
   \<and> (data \<noteq> [] \<longrightarrow> calculate_performance_metrics data \<noteq> None)
   \<and> total_commands (execution_metrics (initial_pipeline w)) = 0
   \<and> successful_commands (execution_metrics (initial_pipeline w)) = 0
   \<and> failed_commands (execution_metrics (initial_pipeline w)) = 0
   \<and> total_commands (execution_metrics (process_commands cmds (initial_pipeline w)))
       = successful_commands (execution_metrics (process_commands cmds (initial_pipeline w)))
         + failed_commands (execution_metrics (process_commands cmds (initial_pipeline w)))"
proof (intro conjI allI impI)
  fix pm assume "calculate_performance_metrics data = Some pm"
  then show "ov_total_commands (pm_overview pm)
        = ov_successful_commands (pm_overview pm) + ov_failed_commands (pm_overview pm)"
    by (auto simp: calculate_performance_metrics_def Let_def split: if_splits)
next
  assume "data \<noteq> []"
  then show "calculate_performance_metrics data \<noteq> None"
    by (simp add: calculate_performance_metrics_def Let_def)
next
  show "total_commands (execution_metrics (process_commands cmds (initial_pipeline w)))
       = successful_commands (execution_metrics (process_commands cmds (initial_pipeline w)))
         + failed_commands (execution_metrics (process_commands cmds (initial_pipeline w)))"
    by (rule process_commands_counters) (simp add: initial_pipeline_def initial_metrics_def)
qed (simp_all add: initial_pipeline_def initial_metrics_def)

theorem count_consistency_witness:
  "(\<exists>pm. calculate_performance_metrics sample_data = Some pm
       \<and> ov_total_commands (pm_overview pm) = 4
       \<and> ov_total_commands (pm_overview pm)
           = ov_successful_commands (pm_overview pm) + ov_failed_commands (pm_overview pm))
   \<and> total_commands (execution_metrics
        (process_commands [(sample_env 2, ''open notepad''), (sample_env 4, ''asdkj qwoei'')]
           (initial_pipeline sample_world)))
      = successful_commands (execution_metrics
        (process_commands [(sample_env 2, ''open notepad''), (sample_env 4, ''asdkj qwoei'')]
           (initial_pipeline sample_world)))
      + failed_commands (execution_metrics
        (process_commands [(sample_env 2, ''open notepad''), (sample_env 4, ''asdkj qwoei'')]
           (initial_pipeline sample_world)))"
proof -
  note t = count_consistency[where data = sample_data and w = sample_world
      and cmds = "[(sample_env 2, ''open notepad''), (sample_env 4, ''asdkj qwoei'')]"]
  have "sample_data \<noteq> []" by (simp add: sample_data_def)
  with t obtain pm where pm: "calculate_performance_metrics sample_data = Some pm" by auto
  then have "ov_total_commands (pm_overview pm) = 4"
    by (auto simp: calculate_performance_metrics_def Let_def sample_data_def)
  with t pm show ?thesis by auto
qed

text \<open>
  Claim C1. The incremental average. A command that passes the confidence gate, in a
  state with average \<open>a\<close> and \<open>n \<ge> 0\<close> commands counted, whose dispatch takes the time
  \<open>t\<close> (the difference of the two clock readings), leaves the average
  \<open>(a * n + t) / (n + 1)\<close>. From the initial state (average 0.0, count 0), three
  dispatched commands with the times 2.0, 4.0 and 6.0 leave the averages 2.0, 3.0 and
  4.0.
\<close>

theorem incremental_average:
  "(\<forall>c. confidence (parse_command command) = Some c \<longrightarrow> \<not> c < 0.5 \<longrightarrow>
        0 \<le> total_commands (execution_metrics s) \<longrightarrow>
        average_response_time (execution_metrics (snd (process_command e command s)))
          = (average_response_time (execution_metrics s)
               * real_of_int (total_commands (execution_metrics s))
             + (clock_end e - clock_start e))
            / (real_of_int (total_commands (execution_metrics s)) + 1))
   \<and> (\<forall>c1 c2 c3.
        confidence (parse_command command1) = Some c1 \<longrightarrow> \<not> c1 < 0.5 \<longrightarrow>
        confidence (parse_command command2) = Some c2 \<longrightarrow> \<not> c2 < 0.5 \<longrightarrow>
        confidence (parse_command command3) = Some c3 \<longrightarrow> \<not> c3 < 0.5 \<longrightarrow>
        clock_end e1 - clock_start e1 = 2 \<longrightarrow>
        clock_end e2 - clock_start e2 = 4 \<longrightarrow>
        clock_end e3 - clock_start e3 = 6 \<longrightarrow>
        average_response_time (execution_metrics (initial_pipeline w)) = 0
        \<and> total_commands (execution_metrics (initial_pipeline w)) = 0
        \<and> average_response_time (execution_metrics
             (process_commands [(e1, command1)] (initial_pipeline w))) = 2
        \<and> average_response_time (execution_metrics
             (process_commands [(e1, command1), (e2, command2)] (initial_pipeline w))) = 3
        \<and> average_response_time (execution_metrics
             (process_commands [(e1, command1), (e2, command2), (e3, command3)]
                (initial_pipeline w))) = 4)"
proof (intro conjI allI impI)
  fix c
  assume "confidence (parse_command command) = Some c" "\<not> c < 0.5"
    "0 \<le> total_commands (execution_metrics s)"
  then show "average_response_time (execution_metrics (snd (process_command e command s)))
          = (average_response_time (execution_metrics s)
               * real_of_int (total_commands (execution_metrics s))
             + (clock_end e - clock_start e))
            / (real_of_int (total_commands (execution_metrics s)) + 1)"
    by (rule process_command_average(1))
next
  fix c1 c2 c3
  assume g1: "confidence (parse_command command1) = Some c1" "\<not> c1 < 0.5"
    and g2: "confidence (parse_command command2) = Some c2" "\<not> c2 < 0.5"
    and g3: "confidence (parse_command command3) = Some c3" "\<not> c3 < 0.5"
    and t1: "clock_end e1 - clock_start e1 = 2"
    and t2: "clock_end e2 - clock_start e2 = 4"
    and t3: "clock_end e3 - clock_start e3 = 6"
  define s0 where "s0 = initial_pipeline w"
  define s1 where "s1 = snd (process_command e1 command1 s0)"
  define s2 where "s2 = snd (process_command e2 command2 s1)"
  define s3 where "s3 = snd (process_command e3 command3 s2)"
  have a0: "average_response_time (execution_metrics s0) = 0"
    and n0: "total_commands (execution_metrics s0) = 0"
    by (simp_all add: s0_def initial_pipeline_def initial_metrics_def)
  have a1: "average_response_time (execution_metrics s1) = 2"
    and n1: "total_commands (execution_metrics s1) = 1"
    using process_command_average[OF g1, of s0 e1] by (simp_all add: s1_def a0 n0 t1)
  have a2: "average_response_time (execution_metrics s2) = 3"
    and n2: "total_commands (execution_metrics s2) = 2"
    using process_command_average[OF g2, of s1 e2] by (simp_all add: s2_def a1 n1 t2)
  have a3: "average_response_time (execution_metrics s3) = 4"
    using process_command_average[OF g3, of s2 e3] by (simp add: s3_def a2 n2 t3)
  show "average_response_time (execution_metrics (initial_pipeline w)) = 0"
    using a0 by (simp add: s0_def)
  show "total_commands (execution_metrics (initial_pipeline w)) = 0"
    using n0 by (simp add: s0_def)
  show "average_response_time (execution_metrics
             (process_commands [(e1, command1)] (initial_pipeline w))) = 2"
    using a1 by (simp add: s1_def s0_def)
  show "average_response_time (execution_metrics
             (process_commands [(e1, command1), (e2, command2)] (initial_pipeline w))) = 3"
    using a2 by (simp add: s2_def s1_def s0_def)
  show "average_response_time (execution_metrics
             (process_commands [(e1, command1), (e2, command2), (e3, command3)]
                (initial_pipeline w))) = 4"
    using a3 by (simp add: s3_def s2_def s1_def s0_def)
qed

theorem incremental_average_witness:
  "average_response_time (execution_metrics
     (snd (process_command (sample_env 2) ''open notepad'' (initial_pipeline sample_world)))) = 2
   \<and> average_response_time (execution_metrics
        (process_commands [(sample_env 2, ''open notepad'')] (initial_pipeline sample_world))) = 2
   \<and> average_response_time (execution_metrics
        (process_commands [(sample_env 2, ''open notepad''), (sample_env 4, ''open notepad'')]
           (initial_pipeline sample_world))) = 3
   \<and> average_response_time (execution_metrics
        (process_commands [(sample_env 2, ''open notepad''), (sample_env 4, ''open notepad''),
                           (sample_env 6, ''open notepad'')]
           (initial_pipeline sample_world))) = 4"
proof -
  note t = incremental_average[where command = "''open notepad''"
      and s = "initial_pipeline sample_world" and e = "sample_env 2"
      and ?command1.0 = "''open notepad''" and ?command2.0 = "''open notepad''"
      and ?command3.0 = "''open notepad''" and ?e1.0 = "sample_env 2"
      and ?e2.0 = "sample_env 4" and ?e3.0 = "sample_env 6" and w = sample_world]
  have g: "\<not> (0.9::real) < 0.5" by simp
  have z: "0 \<le> total_commands (execution_metrics (initial_pipeline sample_world))"
    "average_response_time (execution_metrics (initial_pipeline sample_world)) = 0"
    "total_commands (execution_metrics (initial_pipeline sample_world)) = 0"
    by (simp_all add: initial_pipeline_def initial_metrics_def)
  have c: "clock_end (sample_env 2) - clock_start (sample_env 2) = 2"
    "clock_end (sample_env 4) - clock_start (sample_env 4) = 4"
    "clock_end (sample_env 6) - clock_start (sample_env 6) = 6"
    by (simp_all add: sample_env_def)
  from t have first: "\<forall>c. confidence (parse_command ''open notepad'') = Some c \<longrightarrow> \<not> c < 0.5 \<longrightarrow>
        0 \<le> total_commands (execution_metrics (initial_pipeline sample_world)) \<longrightarrow>
        average_response_time (execution_metrics
          (snd (process_command (sample_env 2) ''open notepad'' (initial_pipeline sample_world))))
          = (average_response_time (execution_metrics (initial_pipeline sample_world))
               * real_of_int (total_commands (execution_metrics (initial_pipeline sample_world)))
             + (clock_end (sample_env 2) - clock_start (sample_env 2)))
            / (real_of_int (total_commands (execution_metrics (initial_pipeline sample_world))) + 1)"
    by (rule conjunct1)
  from first[rule_format, OF confidence_open_notepad g z(1)]
  have one: "average_response_time (execution_metrics
     (snd (process_command (sample_env 2) ''open notepad'' (initial_pipeline sample_world)))) = 2"
    by (simp add: z c)
  from t[THEN conjunct2, rule_format, OF confidence_open_notepad g confidence_open_notepad g
      confidence_open_notepad g c]
  show ?thesis using one by simp
qed

text \<open>
  Claim C10. The average is never divided by zero. \<^verbatim>\<open>total_commands\<close> is incremented
  before the average is computed: with \<open>total_commands \<ge> 0\<close> before the command the
  divisor is the incremented count, at least 1, and the division returns. The update
  raises \<^verbatim>\<open>ZeroDivisionError\<close> exactly when the count it divides by is zero. Every
  state reached from the initial state has \<open>total_commands \<ge> 0\<close>, so no processed command
  raises \<^verbatim>\<open>ZeroDivisionError\<close>, the first one from the all-zero state included.
\<close>

theorem average_divisor_positive:
  "(0 \<le> total_commands m \<longrightarrow>
      total_commands (count_command result m) = total_commands m + 1
    \<and> 1 \<le> total_commands (count_command result m)
    \<and> (\<exists>m'. update_average result (count_command result m) = Inr m'
            \<and> average_response_time m'
                = (average_response_time m * real_of_int (total_commands m)
                     + execution_time result)
                  / real_of_int (total_commands (count_command result m))))
   \<and> (update_average result m1 = Inl ZeroDivisionError \<longleftrightarrow> total_commands m1 = 0)
   \<and> 0 \<le> total_commands (execution_metrics (process_commands cmds (initial_pipeline w)))
   \<and> fst (process_command e command (process_commands cmds (initial_pipeline w)))
        \<noteq> Some ZeroDivisionError
   \<and> fst (process_command e command (initial_pipeline w)) \<noteq> Some ZeroDivisionError"
proof (intro conjI impI)
  assume n: "0 \<le> total_commands m"
  show "total_commands (count_command result m) = total_commands m + 1" by simp
  show "1 \<le> total_commands (count_command result m)" using n by simp
  have "total_commands (count_command result m) \<noteq> 0" using n by simp
  from update_average_returns[OF this]
  show "\<exists>m'. update_average result (count_command result m) = Inr m'
            \<and> average_response_time m'
                = (average_response_time m * real_of_int (total_commands m)
                     + execution_time result)
                  / real_of_int (total_commands (count_command result m))"
    by simp
next
  show "update_average result m1 = Inl ZeroDivisionError \<longleftrightarrow> total_commands m1 = 0"
    by (simp add: update_average_raises_iff)
next
  have z: "0 \<le> total_commands (execution_metrics (initial_pipeline w))"
    by (simp add: initial_pipeline_def initial_metrics_def)
  show r: "0 \<le> total_commands (execution_metrics (process_commands cmds (initial_pipeline w)))"
    by (rule process_commands_total_nonneg[OF z])
  show "fst (process_command e command (process_commands cmds (initial_pipeline w)))
        \<noteq> Some ZeroDivisionError"
    using process_command_zero_division[of e command "process_commands cmds (initial_pipeline w)"] r
    by auto
  show "fst (process_command e command (initial_pipeline w)) \<noteq> Some ZeroDivisionError"
    using process_command_zero_division[of e command "initial_pipeline w"] z by auto
qed

theorem average_divisor_positive_witness:
  "0 \<le> total_commands initial_metrics
   \<and> total_commands (count_command initial_result initial_metrics) = 1
   \<and> (\<exists>m'. update_average initial_result (count_command initial_result initial_metrics) = Inr m')
   \<and> fst (process_command (sample_env 2) ''open notepad'' (initial_pipeline sample_world))
        \<noteq> Some ZeroDivisionError"
proof -
  have z: "0 \<le> total_commands initial_metrics" "total_commands initial_metrics = 0"
    by (simp_all add: initial_metrics_def)
  from average_divisor_positive[where m = initial_metrics and result = initial_result
      and ?m1.0 = initial_metrics and cmds = "[]" and w = sample_world
      and e = "sample_env 2" and command = "''open notepad''"] z
  show ?thesis by auto
qed

text \<open>
  Claim C8. The classification miss gate. When the confidence of the classified intent
  is below 0.5, \<^verbatim>\<open>process_command\<close> returns without an exception, leaves the metrics
  counters (\<^verbatim>\<open>total_commands\<close>, \<^verbatim>\<open>successful_commands\<close>, \<^verbatim>\<open>failed_commands\<close>,
  \<^verbatim>\<open>average_response_time\<close>), the execution log and the system as they were, and
  answers with the request to rephrase. Nothing of what a dispatch reads from outside
  has an influence: the dispatch is not invoked.
\<close>

theorem classification_miss_gate:
  assumes "confidence (parse_command command) = Some c" and "c < 0.5"
  shows "fst (process_command e command s) = None
       \<and> execution_metrics (snd (process_command e command s)) = execution_metrics s
       \<and> total_commands (execution_metrics (snd (process_command e command s)))
           = total_commands (execution_metrics s)
       \<and> successful_commands (execution_metrics (snd (process_command e command s)))
           = successful_commands (execution_metrics s)
       \<and> failed_commands (execution_metrics (snd (process_command e command s)))
           = failed_commands (execution_metrics s)
       \<and> average_response_time (execution_metrics (snd (process_command e command s)))
           = average_response_time (execution_metrics s)
       \<and> execution_logs (snd (process_command e command s)) = execution_logs s
       \<and> system (snd (process_command e command s)) = system s
       \<and> responses (snd (process_command e command s))
           = responses s @ [clarification command]
       \<and> (\<forall>e'. process_command e' command s = process_command e command s)"
  using process_command_miss[OF assms] by simp

theorem classification_miss_gate_witness:
  "confidence (parse_command ''asdkj qwoei'') = Some 0 \<and> (0::real) < 0.5
   \<and> fst (process_command (sample_env 2) ''asdkj qwoei'' (initial_pipeline sample_world)) = None
   \<and> execution_metrics
        (snd (process_command (sample_env 2) ''asdkj qwoei'' (initial_pipeline sample_world)))
      = initial_metrics
   \<and> execution_logs
        (snd (process_command (sample_env 2) ''asdkj qwoei'' (initial_pipeline sample_world)))
      = Map.empty
   \<and> system
        (snd (process_command (sample_env 2) ''asdkj qwoei'' (initial_pipeline sample_world)))
      = sample_world
   \<and> responses
        (snd (process_command (sample_env 2) ''asdkj qwoei'' (initial_pipeline sample_world)))
      = [clarification ''asdkj qwoei'']"
proof -
  have g: "(0::real) < 0.5" by simp
  from classification_miss_gate[OF confidence_gibberish g,
      of "sample_env 2" "initial_pipeline sample_world"]
  show ?thesis using confidence_gibberish g by (simp add: initial_pipeline_def)
qed

end
